theory Spec2Isabelle
  imports Main "HOL-Library.Word"
begin

section \<open>Bytes, big integers and formatting\<close>

type_synonym byte = "8 word"

text \<open>
  Go's \<^verbatim>\<open>*big.Int\<close> is an unbounded signed integer: \<^typ>\<open>int\<close>.
  \<^verbatim>\<open>big.Int.Bytes()\<close> is the big-endian byte string of the absolute value, without
  leading zero bytes (empty for 0); \<^verbatim>\<open>SetBytes\<close> reads a big-endian unsigned integer.
\<close>

function le_digits :: "int \<Rightarrow> byte list" where
  "le_digits n = (if n \<le> 0 then [] else of_int (n mod 256) # le_digits (n div 256))"
  by pat_completeness auto
termination
  by (relation "measure nat") auto

declare le_digits.simps [simp del]

definition Bytes :: "int \<Rightarrow> byte list" where
  "Bytes x = rev (le_digits \<bar>x\<bar>)"

definition SetBytes :: "byte list \<Rightarrow> int" where
  "SetBytes buf = foldl (\<lambda>acc b. acc * 256 + uint b) 0 buf"

text \<open>The value of a byte string read least significant byte first.\<close>

fun le_val :: "byte list \<Rightarrow> int" where
  "le_val [] = 0"
| "le_val (b # bs) = uint b + 256 * le_val bs"

text \<open>Go's \<^verbatim>\<open>data[a:b]\<close> for \<open>a \<le> b \<le> len(data)\<close>, and the builtin \<^verbatim>\<open>copy(dst, src)\<close>,
  which overwrites the first \<open>min (len dst) (len src)\<close> bytes of \<open>dst\<close>.\<close>

definition slice :: "'a list \<Rightarrow> nat \<Rightarrow> nat \<Rightarrow> 'a list" where
  "slice xs a b = take (b - a) (drop a xs)"

definition copy_bytes :: "byte list \<Rightarrow> byte list \<Rightarrow> byte list" where
  "copy_bytes dst src = take (length dst) src @ drop (length src) dst"

text \<open>
  The helpers of the external library \<^verbatim>\<open>github.com/vocdoni/arbo\<close> that the ciphertext
  encoding calls: \<^verbatim>\<open>BigIntToBytes(blen, bi)\<close> copies the byte-swapped \<^verbatim>\<open>bi.Bytes()\<close> into a
  zeroed buffer of \<open>blen\<close> bytes (little-endian, fixed width), and \<^verbatim>\<open>BytesToBigInt\<close> reads
  the byte-swapped input with \<^verbatim>\<open>SetBytes\<close>.
\<close>

definition SwapEndianness :: "byte list \<Rightarrow> byte list" where
  "SwapEndianness b = rev b"

definition BigIntToBytes :: "nat \<Rightarrow> int \<Rightarrow> byte list" where
  "BigIntToBytes blen bi = copy_bytes (replicate blen 0) (SwapEndianness (Bytes bi))"

definition BytesToBigInt :: "byte list \<Rightarrow> int" where
  "BytesToBigInt b = SetBytes (SwapEndianness b)"

text \<open>The verb \<^verbatim>\<open>%d\<close> of \<^verbatim>\<open>fmt\<close>: the decimal digits, after a minus sign for a negative
  value.\<close>

function show_digits :: "int \<Rightarrow> string" where
  "show_digits n = (if n < 10 then [''0123456789'' ! nat n]
                    else show_digits (n div 10) @ [''0123456789'' ! nat (n mod 10)])"
  by pat_completeness auto
termination
  by (relation "measure nat") auto

declare show_digits.simps [simp del]

definition show_int :: "int \<Rightarrow> string" where
  "show_int n = (if n < 0 then CHR ''-'' # show_digits (- n) else show_digits n)"

section \<open>The ElGamal ciphertext (crypto/elgamal/ciphertext.go)\<close>

subsection \<open>Curve points and the store\<close>

text \<open>
  Modelled from the spec: the Curve Point capability set (package \<^verbatim>\<open>crypto/ecc\<close>) and the
  coordinate conversions (package \<^verbatim>\<open>crypto/ecc/format\<close>) are code of the repository that
  is not among the available sources. The spec gives them as an interface
  \<open>{New, Point, SetPoint, SafeAdd, String}\<close> over each supported curve and leaves the
  curve arithmetic to the curve; so the operations are the fields of a record that every
  function of the ciphertext takes as its first argument. \<open>'p\<close> is the value a point
  object holds. \<open>ScalarBaseMult\<close> and \<open>ScalarMult\<close> are \<open>g^k\<close> and \<open>k\<cdot>P\<close> of the spec's
  encryption formula. By the spec \<^verbatim>\<open>SetPoint\<close> "fails if the coordinates do not lie on
  the curve"; where it is called (\<^verbatim>\<open>z.C1 = z.C1.SetPoint(...)\<close>) it has one result, a
  point, and no error, so a call either returns a point or does not return: the
  failure is a panic.
\<close>

datatype panic = NilPointerDereference | BufferTooSmall | CoordinatesNotOnCurve

record 'p curve =
  New :: "'p"
  Point :: "'p \<Rightarrow> int \<times> int"
  SetPoint :: "int \<Rightarrow> int \<Rightarrow> panic + 'p"
  SafeAdd :: "'p \<Rightarrow> 'p \<Rightarrow> 'p"
  ScalarBaseMult :: "int \<Rightarrow> 'p"
  ScalarMult :: "'p \<Rightarrow> int \<Rightarrow> 'p"
  FromTEtoRTE :: "int \<Rightarrow> int \<Rightarrow> int \<times> int"
  FromRTEtoTE :: "int \<Rightarrow> int \<Rightarrow> int \<times> int"

text \<open>
  \<^verbatim>\<open>ecc.Point\<close> is an interface whose methods update the receiver in place
  (\<^verbatim>\<open>z.C1.SafeAdd(x.C1, y.C1)\<close> has no result), so a field of type \<^verbatim>\<open>ecc.Point\<close> holds a
  reference to a point object, and a \<^verbatim>\<open>*Ciphertext\<close> is a reference to a struct of two
  such references. The store keeps both kinds of object in lists; a reference is an
  index, a fresh object is appended, and a reference that is outside the list when a
  function is entered stands for \<^verbatim>\<open>nil\<close>: using it is Go's nil-pointer panic.
\<close>

type_synonym ref = nat

record Ciphertext =
  C1 :: ref
  C2 :: ref

record 'p heap =
  points :: "'p list"
  ciphertexts :: "Ciphertext list"

definition load_point :: "'p heap \<Rightarrow> ref \<Rightarrow> 'p option" where
  "load_point h r = (if r < length (points h) then Some (points h ! r) else None)"

definition load_ct :: "'p heap \<Rightarrow> ref \<Rightarrow> Ciphertext option" where
  "load_ct h z = (if z < length (ciphertexts h) then Some (ciphertexts h ! z) else None)"

definition new_point :: "'p heap \<Rightarrow> 'p \<Rightarrow> ref \<times> 'p heap" where
  "new_point h v = (length (points h), h\<lparr>points := points h @ [v]\<rparr>)"

text \<open>The values of the two points of the ciphertext at \<open>z\<close>, when all three objects
  exist.\<close>

definition ct_points :: "'p heap \<Rightarrow> ref \<Rightarrow> ('p \<times> 'p) option" where
  "ct_points h z =
     (case load_ct h z of None \<Rightarrow> None
      | Some c \<Rightarrow>
        (case load_point h (C1 c) of None \<Rightarrow> None
         | Some a \<Rightarrow>
           (case load_point h (C2 c) of None \<Rightarrow> None
            | Some b \<Rightarrow> Some (a, b))))"

subsection \<open>The operations\<close>

definition sizePointCoord :: nat where
  "sizePointCoord = 32"

text \<open>\<^verbatim>\<open>NewCiphertext(curve)\<close>: two fresh identity points and a fresh struct.\<close>

definition NewCiphertext :: "'p curve \<Rightarrow> 'p heap \<Rightarrow> ref \<times> 'p heap" where
  "NewCiphertext cv h =
     (let (r1, h1) = new_point h (New cv);
          (r2, h2) = new_point h1 (New cv)
      in (length (ciphertexts h2),
          h2\<lparr>ciphertexts := ciphertexts h2 @ [\<lparr>C1 = r1, C2 = r2\<rparr>]\<rparr>))"

text \<open>\<^verbatim>\<open>r.SafeAdd(a, b)\<close> on point objects: reads \<open>a\<close> and \<open>b\<close>, overwrites \<open>r\<close>.\<close>

definition SafeAdd_at :: "'p curve \<Rightarrow> 'p heap \<Rightarrow> ref \<Rightarrow> ref \<Rightarrow> ref \<Rightarrow> panic + 'p heap" where
  "SafeAdd_at cv h r a b =
     (case load_point h r of None \<Rightarrow> Inl NilPointerDereference
      | Some _ \<Rightarrow>
        (case load_point h a of None \<Rightarrow> Inl NilPointerDereference
         | Some va \<Rightarrow>
           (case load_point h b of None \<Rightarrow> Inl NilPointerDereference
            | Some vb \<Rightarrow> Inr (h\<lparr>points := (points h)[r := SafeAdd cv va vb]\<rparr>))))"

text \<open>\<^verbatim>\<open>func (z *Ciphertext) Add(x, y *Ciphertext) *Ciphertext\<close>: the result is the
  returned reference and the store after the call.\<close>

definition Add :: "'p curve \<Rightarrow> 'p heap \<Rightarrow> ref \<Rightarrow> ref \<Rightarrow> ref \<Rightarrow> panic + (ref \<times> 'p heap)" where
  "Add cv h z x y =
     (case load_ct h z of None \<Rightarrow> Inl NilPointerDereference
      | Some zc \<Rightarrow>
        (case load_ct h x of None \<Rightarrow> Inl NilPointerDereference
         | Some xc \<Rightarrow>
           (case load_ct h y of None \<Rightarrow> Inl NilPointerDereference
            | Some yc \<Rightarrow>
              (case SafeAdd_at cv h (C1 zc) (C1 xc) (C1 yc) of Inl e \<Rightarrow> Inl e
               | Inr h1 \<Rightarrow>
                 (case SafeAdd_at cv h1 (C2 zc) (C2 xc) (C2 yc) of Inl e \<Rightarrow> Inl e
                  | Inr h2 \<Rightarrow> Inr (z, h2))))))"

text \<open>\<^verbatim>\<open>func (z *Ciphertext) Serialize() []byte\<close>: the loop writes the four
  coordinates to the buffer in turn.\<close>

definition Serialize :: "'p curve \<Rightarrow> 'p heap \<Rightarrow> ref \<Rightarrow> panic + byte list" where
  "Serialize cv h z =
     (case load_ct h z of None \<Rightarrow> Inl NilPointerDereference
      | Some zc \<Rightarrow>
        (case load_point h (C1 zc) of None \<Rightarrow> Inl NilPointerDereference
         | Some p1 \<Rightarrow>
           (case load_point h (C2 zc) of None \<Rightarrow> Inl NilPointerDereference
            | Some p2 \<Rightarrow>
              (let (c1x, c1y) = (case Point cv p1 of (x, y) \<Rightarrow> FromTEtoRTE cv x y);
                   (c2x, c2y) = (case Point cv p2 of (x, y) \<Rightarrow> FromTEtoRTE cv x y)
               in Inr (foldl (\<lambda>buf bi. buf @ BigIntToBytes sizePointCoord bi) []
                         [c1x, c1y, c2x, c2y])))))"

text \<open>
  \<^verbatim>\<open>func (z *Ciphertext) Deserialize(data []byte) error\<close>: the result is the returned
  error (\<open>None\<close> for \<^verbatim>\<open>nil\<close>) and the store after the call, or a panic. The length is
  checked before the receiver is touched; it is the only \<^verbatim>\<open>return\<close> with an error. Then
  the two statements \<^verbatim>\<open>z.C1 = z.C1.SetPoint(...)\<close> and \<^verbatim>\<open>z.C2 = z.C2.SetPoint(...)\<close> run
  in turn: each panics when its receiver is \<^verbatim>\<open>nil\<close> or when \<^verbatim>\<open>SetPoint\<close> panics, and
  otherwise stores the returned point, a fresh object, in the field. Whether \<open>z.C2\<close> is
  \<^verbatim>\<open>nil\<close> is read off the store as it was on entry: the first statement assigns \<open>z.C1\<close>
  only, and the object it makes is new, so that no reference held before refers to it.
  A panic leaves no store behind, so the two objects are appended once both points are
  there.
\<close>

definition readBigInt :: "byte list \<Rightarrow> nat \<Rightarrow> int" where
  "readBigInt data offset = BytesToBigInt (slice data offset (offset + sizePointCoord))"

definition Deserialize :: "'p curve \<Rightarrow> 'p heap \<Rightarrow> ref \<Rightarrow> byte list \<Rightarrow> panic + (string option \<times> 'p heap)" where
  "Deserialize cv h z data =
     (if length data \<noteq> 4 * sizePointCoord then
        Inr (Some (''invalid input length: got '' @ show_int (int (length data)) @
                   '' bytes, expected '' @ show_int (int (4 * sizePointCoord)) @ '' bytes''), h)
      else
        (case load_ct h z of None \<Rightarrow> Inl NilPointerDereference
         | Some zc \<Rightarrow>
           (case load_point h (C1 zc) of None \<Rightarrow> Inl NilPointerDereference
            | Some _ \<Rightarrow>
              (let (x1, y1) = FromRTEtoTE cv (readBigInt data (0 * sizePointCoord))
                                             (readBigInt data (1 * sizePointCoord))
               in (case SetPoint cv x1 y1 of Inl p \<Rightarrow> Inl p
                   | Inr v1 \<Rightarrow>
                     (case load_point h (C2 zc) of None \<Rightarrow> Inl NilPointerDereference
                      | Some _ \<Rightarrow>
                        (let (x2, y2) = FromRTEtoTE cv (readBigInt data (2 * sizePointCoord))
                                                       (readBigInt data (3 * sizePointCoord))
                         in (case SetPoint cv x2 y2 of Inl p \<Rightarrow> Inl p
                             | Inr v2 \<Rightarrow>
                               (let (r1, h1) = new_point h v1;
                                    (r2, h2) = new_point h1 v2
                                in Inr (None,
                                        h2\<lparr>ciphertexts :=
                                             (ciphertexts h2)[z := zc\<lparr>C1 := r1, C2 := r2\<rparr>]\<rparr>))))))))))"

text \<open>
  Modelled from the spec: \<^verbatim>\<open>EncryptWithK\<close> and \<^verbatim>\<open>RandK\<close> belong to another file of package
  \<^verbatim>\<open>crypto/elgamal\<close> that is not among the sources; \<^verbatim>\<open>Encrypt\<close> calls them. By the spec
  the encryption "computes \<open>C1 = g^k\<close>, \<open>C2 = message\<cdot>g + k\<cdot>publicKey\<close>" and "fails only if
  randomness generation fails". \<^verbatim>\<open>EncryptWithK\<close> has the result type its caller expects
  (two points or an error) and, as the spec has it, never takes the error branch. The
  outcome of \<^verbatim>\<open>RandK()\<close>, a scalar or the error of the entropy source, is an argument of
  \<open>Encrypt\<close>.
\<close>

definition EncryptWithK :: "'p curve \<Rightarrow> 'p \<Rightarrow> int \<Rightarrow> int \<Rightarrow> string + ('p \<times> 'p)" where
  "EncryptWithK cv publicKey message k =
     Inr (ScalarBaseMult cv k,
          SafeAdd cv (ScalarBaseMult cv message) (ScalarMult cv publicKey k))"

text \<open>
  \<^verbatim>\<open>func (z *Ciphertext) Encrypt(message *big.Int, publicKey ecc.Point, k *big.Int)
  (*Ciphertext, error)\<close>. \<open>k = None\<close> is the \<^verbatim>\<open>nil\<close> scalar. The result is the returned
  pair (a reference or \<^verbatim>\<open>nil\<close>, an error or \<^verbatim>\<open>nil\<close>) and the store after the call.
  \<open>Encrypt_with\<close> is the part of the body after the scalar is known.
\<close>

definition Encrypt_with ::
  "'p curve \<Rightarrow> 'p heap \<Rightarrow> ref \<Rightarrow> int \<Rightarrow> ref \<Rightarrow> int \<Rightarrow> panic + ((ref option \<times> string option) \<times> 'p heap)" where
  "Encrypt_with cv h z message publicKey k =
     (case load_point h publicKey of None \<Rightarrow> Inl NilPointerDereference
      | Some pk \<Rightarrow>
        (case EncryptWithK cv pk message k of
           Inl err \<Rightarrow> Inr ((None, Some (''elgamal encryption failed: '' @ err)), h)
         | Inr (c1, c2) \<Rightarrow>
           (let (r1, h1) = new_point h c1;
                (r2, h2) = new_point h1 c2
            in (case load_ct h2 z of None \<Rightarrow> Inl NilPointerDereference
                | Some zc \<Rightarrow>
                  Inr ((Some z, None),
                       h2\<lparr>ciphertexts := (ciphertexts h2)[z := zc\<lparr>C1 := r1, C2 := r2\<rparr>]\<rparr>)))))"

definition Encrypt ::
  "'p curve \<Rightarrow> string + int \<Rightarrow> 'p heap \<Rightarrow> ref \<Rightarrow> int \<Rightarrow> ref \<Rightarrow> int option
     \<Rightarrow> panic + ((ref option \<times> string option) \<times> 'p heap)" where
  "Encrypt cv RandK h z message publicKey k =
     (case k of
        None \<Rightarrow>
          (case RandK of
             Inl err \<Rightarrow> Inr ((None, Some (''elgamal encryption failed: '' @ err)), h)
           | Inr k' \<Rightarrow> Encrypt_with cv h z message publicKey k')
      | Some k' \<Rightarrow> Encrypt_with cv h z message publicKey k')"

subsection \<open>A curve to compute with\<close>

text \<open>
  Modelled from the spec: the curves (package \<^verbatim>\<open>crypto/ecc/curves\<close>) are not among the
  sources; the spec asks for "a twisted-Edwards curve matching the field of the
  recursive proof system". The instance below is such a curve with its published
  constants: Baby Jubjub over the scalar field of BN254, in the twisted Edwards form
  \<open>a\<cdot>x\<^sup>2 + y\<^sup>2 = 1 + d\<cdot>x\<^sup>2\<cdot>y\<^sup>2\<close> with \<open>a = -1\<close>. A point object holds its affine
  coordinates. \<open>SetPoint\<close> is as the spec words it: it takes the coordinates of a point
  of the curve (two field elements that satisfy the equation) and fails on every other
  pair. The reduced form scales the first coordinate, \<open>x\<^sub>R\<^sub>T\<^sub>E = x / (-f)\<close> and back
  \<open>x = x\<^sub>R\<^sub>T\<^sub>E \<cdot> (-f)\<close>, and passes the second one through. The instance serves to run the
  operations on concrete inputs; the theorems about the ciphertext hold for every record
  of operations.
\<close>

definition fr_modulus :: int where
  "fr_modulus = 21888242871839275222246405745257275088548364400416034343698204186575808495617"

definition te_d :: int where
  "te_d = 12181644023421730124874158521699555681764249180949974110617291017600649128846"

definition scalingFactor :: int where
  "scalingFactor = 6360561867910373094066688120553762416144456282423235903351243436111059670888"

function fe_pow :: "int \<Rightarrow> int \<Rightarrow> int" where
  "fe_pow x n =
     (if n \<le> 0 then 1
      else (let h = fe_pow (x * x mod fr_modulus) (n div 2)
            in if even n then h else x * h mod fr_modulus))"
  by pat_completeness auto
termination
  by (relation "measure (\<lambda>(x, n). nat n)") auto

declare fe_pow.simps [simp del]

definition fe_inv :: "int \<Rightarrow> int" where
  "fe_inv x = fe_pow x (fr_modulus - 2)"

definition negF :: int where
  "negF = (- scalingFactor) mod fr_modulus"

text \<open>The inverse of \<open>-f\<close> in the field, as a constant: \<open>negF * negFInv mod fr_modulus = 1\<close>.\<close>

definition negFInv :: int where
  "negFInv = 1911982854305225074381251344103329931637610209014896889891168275855466657090"

definition te_on_curve :: "int \<times> int \<Rightarrow> bool" where
  "te_on_curve P =
     (case P of (x, y) \<Rightarrow>
        0 \<le> x \<and> x < fr_modulus \<and> 0 \<le> y \<and> y < fr_modulus \<and>
        (let xx = x * x mod fr_modulus; yy = y * y mod fr_modulus
         in (yy - xx) mod fr_modulus = (1 + te_d * (xx * yy mod fr_modulus)) mod fr_modulus))"

definition te_add :: "int \<times> int \<Rightarrow> int \<times> int \<Rightarrow> int \<times> int" where
  "te_add P Q =
     (case P of (x1, y1) \<Rightarrow> case Q of (x2, y2) \<Rightarrow>
        ((x1 * y2 + y1 * x2) * fe_inv ((1 + te_d * x1 * x2 * y1 * y2) mod fr_modulus) mod fr_modulus,
         (y1 * y2 + x1 * x2) * fe_inv ((1 - te_d * x1 * x2 * y1 * y2) mod fr_modulus) mod fr_modulus))"

function te_mul :: "int \<times> int \<Rightarrow> int \<Rightarrow> int \<times> int" where
  "te_mul P n =
     (if n \<le> 0 then (0, 1)
      else (let H = te_mul (te_add P P) (n div 2)
            in if even n then H else te_add P H))"
  by pat_completeness auto
termination
  by (relation "measure (\<lambda>(P, n). nat n)") auto

declare te_mul.simps [simp del]

definition te_base :: "int \<times> int" where
  "te_base =
     (9671717474070082183213120605117400219616337014328744928644933853176787189663,
      16950150798460657717958625567821834550301663161624707787222815936182638968203)"

definition bjj :: "(int \<times> int) curve" where
  "bjj = \<lparr> New = (0, 1),
           Point = (\<lambda>P. P),
           SetPoint = (\<lambda>x y. if te_on_curve (x, y) then Inr (x, y) else Inl CoordinatesNotOnCurve),
           SafeAdd = te_add,
           ScalarBaseMult = (\<lambda>k. te_mul te_base k),
           ScalarMult = (\<lambda>P k. te_mul P k),
           FromTEtoRTE = (\<lambda>x y. ((x mod fr_modulus) * negFInv mod fr_modulus, y)),
           FromRTEtoTE = (\<lambda>x y. ((x mod fr_modulus) * negF mod fr_modulus, y)) \<rparr>"


subsection \<open>Notions the statements use\<close>

text \<open>What \<open>Deserialize\<close> makes of the two 32-byte chunks at \<open>offset\<close>: the point that
  \<open>SetPoint\<close> returns for the decoded and converted pair, or the panic of \<open>SetPoint\<close>.\<close>

definition decode_point :: "'p curve \<Rightarrow> byte list \<Rightarrow> nat \<Rightarrow> panic + 'p" where
  "decode_point cv data offset =
     (case FromRTEtoTE cv (readBigInt data offset) (readBigInt data (offset + sizePointCoord)) of
        (x, y) \<Rightarrow> SetPoint cv x y)"

text \<open>
  What the round trip needs of a point: its reduced coordinates are non-negative and
  fit 32 bytes, the conversion back undoes the conversion at this point (the spec's
  "coordinate conversion invertibility"), and \<open>SetPoint\<close> on the coordinates of the point
  returns a point with these coordinates. On the curve above every point of the curve
  has these properties.
\<close>

definition canonical :: "'p curve \<Rightarrow> 'p \<Rightarrow> bool" where
  "canonical cv v =
     (case Point cv v of (x, y) \<Rightarrow>
        case FromTEtoRTE cv x y of (u, w) \<Rightarrow>
          0 \<le> u \<and> u < 2 ^ 256 \<and> 0 \<le> w \<and> w < 2 ^ 256 \<and>
          FromRTEtoTE cv u w = (x, y) \<and>
          (case SetPoint cv x y of Inl _ \<Rightarrow> False | Inr v' \<Rightarrow> Point cv v' = (x, y)))"

text \<open>The point objects a ciphertext refers to, and two ciphertexts sharing none.\<close>

definition point_refs :: "'p heap \<Rightarrow> ref \<Rightarrow> ref set" where
  "point_refs h z = (case load_ct h z of None \<Rightarrow> {} | Some c \<Rightarrow> {C1 c, C2 c})"

definition separate :: "'p heap \<Rightarrow> ref \<Rightarrow> ref \<Rightarrow> bool" where
  "separate h z x = (point_refs h z \<inter> point_refs h x = {})"

text \<open>Stores to run the operations on: one fresh ciphertext; one ciphertext whose
  first point is the base point; and two ciphertexts that hold the point of order two
  \<open>(0, -1)\<close> as their first component.\<close>

definition heap0 :: "(int \<times> int) heap" where
  "heap0 = snd (NewCiphertext bjj \<lparr>points = [], ciphertexts = []\<rparr>)"

definition heapG :: "(int \<times> int) heap" where
  "heapG = \<lparr>points = [te_base, (0, 1)], ciphertexts = [\<lparr>C1 = 0, C2 = 1\<rparr>]\<rparr>"

definition heap2 :: "(int \<times> int) heap" where
  "heap2 = \<lparr>points = [(0, fr_modulus - 1), (0, 1), (0, fr_modulus - 1), (0, 1)],
            ciphertexts = [\<lparr>C1 = 0, C2 = 1\<rparr>, \<lparr>C1 = 2, C2 = 3\<rparr>]\<rparr>"

text \<open>A receiver and three ciphertexts, no two of which share a point object.\<close>

definition heap4 :: "(int \<times> int) heap" where
  "heap4 = \<lparr>points = [(0, 1), (0, 1), (0, fr_modulus - 1), (0, 1),
                      (0, fr_modulus - 1), (0, 1), (0, 1), (0, fr_modulus - 1)],
            ciphertexts = [\<lparr>C1 = 0, C2 = 1\<rparr>, \<lparr>C1 = 2, C2 = 3\<rparr>,
                           \<lparr>C1 = 4, C2 = 5\<rparr>, \<lparr>C1 = 6, C2 = 7\<rparr>]\<rparr>"

text \<open>Two structs that refer to the same first point object, as after the struct copy
  \<^verbatim>\<open>x := &Ciphertext{C1: z.C1, C2: curve.New()}\<close>.\<close>

definition heap_shared :: "(int \<times> int) heap" where
  "heap_shared = \<lparr>points = [(0, fr_modulus - 1), (0, 1), (0, 1)],
                  ciphertexts = [\<lparr>C1 = 0, C2 = 1\<rparr>, \<lparr>C1 = 0, C2 = 2\<rparr>]\<rparr>"

text \<open>A receiver whose first point object is also the second point object of another
  struct, as after \<^verbatim>\<open>x := &Ciphertext{C1: curve.New(), C2: z.C1}\<close>.\<close>

definition heap_crossed :: "(int \<times> int) heap" where
  "heap_crossed = \<lparr>points = [(0, fr_modulus - 1), (0, 1), (0, fr_modulus - 1), (0, 1)],
                   ciphertexts = [\<lparr>C1 = 0, C2 = 1\<rparr>, \<lparr>C1 = 2, C2 = 0\<rparr>, \<lparr>C1 = 2, C2 = 3\<rparr>]\<rparr>"

text \<open>The encoding of the identity point \<open>(0, 1)\<close>, twice: a ciphertext on the wire.\<close>

definition wire_identity :: "byte list" where
  "wire_identity = replicate 32 0 @ (1 # replicate 31 0) @ replicate 32 0 @ (1 # replicate 31 0)"

section \<open>Process creation (api/process.go)\<close>

text \<open>
  The handler \<^verbatim>\<open>newProcess\<close> is the code under study; what it calls is outside the
  available sources and enters as a parameter: the JSON decoder of the request body,
  \<^verbatim>\<open>ethereum.AddrFromSignature\<close>, the outcome of \<^verbatim>\<open>elgamal.GenerateKey\<close> (a key pair or the
  error of the randomness source), \<^verbatim>\<open>ProcessID.Marshal\<close>, and the storage with its
  \<^verbatim>\<open>StoreEncryptionKeys\<close>, which returns its error and the storage it leaves.
\<close>

datatype Process = Process (ChainID: int) (Nonce: int) (ReqSignature: "byte list")

datatype 'a ProcessID = ProcessID 'a int int

record ProcessResponse =
  ResponseProcessID :: "byte list"
  EncryptionPubKey :: "int \<times> int"
  StateRoot :: "byte list"

text \<open>
  Modelled from the spec: the error values \<^verbatim>\<open>ErrMalformedBody\<close>, \<^verbatim>\<open>ErrInvalidSignature\<close> and
  \<^verbatim>\<open>ErrGenericInternalServerError\<close> are defined in a file of package \<^verbatim>\<open>api\<close> that is not
  among the sources. The spec calls them structured errors with a stable error code;
  the constructor stands for the code, and \<^verbatim>\<open>Withf(...).Write(w)\<close> writes the error with
  the formatted message to the response.
\<close>

datatype api_error = ErrMalformedBody | ErrInvalidSignature | ErrGenericInternalServerError

text \<open>What the handler does to the outside, in order.\<close>

datatype ('a, 'p) effect =
    ErrorWritten api_error string
  | StoreEncryptionKeysCalled "'a ProcessID" 'p int
  | Infow ProcessResponse
  | JSONWritten ProcessResponse

record ('a, 'p, 'st) collaborators =
  Decode :: "byte list \<Rightarrow> string + Process"
  AddrFromSignature :: "string \<Rightarrow> byte list \<Rightarrow> string + 'a"
  GenerateKey :: "string + ('p \<times> int)"
  PublicKeyPoint :: "'p \<Rightarrow> int \<times> int"
  Marshal :: "'a ProcessID \<Rightarrow> byte list"
  StoreEncryptionKeys :: "'st \<Rightarrow> 'a ProcessID \<Rightarrow> 'p \<Rightarrow> int \<Rightarrow> string option \<times> 'st"

text \<open>\<^verbatim>\<open>func (a *API) newProcess(w http.ResponseWriter, r *http.Request)\<close>: from the
  request body and the storage to the effects, in order, and the storage afterwards.\<close>

definition newProcess ::
  "('a, 'p, 'st) collaborators \<Rightarrow> 'st \<Rightarrow> byte list \<Rightarrow> ('a, 'p) effect list \<times> 'st" where
  "newProcess env storage body =
     (case Decode env body of
        Inl err \<Rightarrow> ([ErrorWritten ErrMalformedBody (''could not decode request body: '' @ err)], storage)
      | Inr p \<Rightarrow>
        (case AddrFromSignature env (show_int (ChainID p) @ show_int (Nonce p)) (ReqSignature p) of
           Inl err \<Rightarrow>
             ([ErrorWritten ErrInvalidSignature
                 (''could not extract address from signature: '' @ err)], storage)
         | Inr address \<Rightarrow>
           (let pid = ProcessID address (Nonce p) (ChainID p)
            in (case GenerateKey env of
                  Inl err \<Rightarrow>
                    ([ErrorWritten ErrGenericInternalServerError
                        (''could not generate elgamal key: '' @ err)], storage)
                | Inr (publicKey, privateKey) \<Rightarrow>
                  (let (x, y) = PublicKeyPoint env publicKey;
                       pr = \<lparr>ResponseProcessID = Marshal env pid, EncryptionPubKey = (x, y),
                             StateRoot = []\<rparr>
                   in (case StoreEncryptionKeys env storage pid publicKey privateKey of
                         (Some err, storage') \<Rightarrow>
                           ([StoreEncryptionKeysCalled pid publicKey privateKey,
                             ErrorWritten ErrGenericInternalServerError
                               (''could not store encryption keys: '' @ err)], storage')
                       | (None, storage') \<Rightarrow>
                           ([StoreEncryptionKeysCalled pid publicKey privateKey, Infow pr,
                             JSONWritten pr], storage')))))))"

text \<open>Whether an effect is a call of the storage.\<close>

fun is_store_call :: "('a, 'p) effect \<Rightarrow> bool" where
  "is_store_call (StoreEncryptionKeysCalled pid pk sk) = True"
| "is_store_call e = False"

text \<open>Collaborators to run the handler with: a body of two bytes is a request with
  that chain id, that nonce and a signature, a body of three bytes one with an empty
  signature, and any other body is malformed; a signature is valid when it is not
  empty and then gives the address 7; key generation succeeds or not as the argument
  says; and the storage is the list of the process ids stored.\<close>

definition toy_env :: "string + (nat \<times> int) \<Rightarrow> (nat, nat, nat ProcessID list) collaborators" where
  "toy_env keygen =
     \<lparr> Decode = (\<lambda>b. case b of [c, n] \<Rightarrow> Inr (Process (uint c) (uint n) [1])
                       | [c, n, s] \<Rightarrow> Inr (Process (uint c) (uint n) [])
                       | _ \<Rightarrow> Inl ''unexpected end of JSON input''),
       AddrFromSignature = (\<lambda>msg sig. if sig = [] then Inl ''invalid signature length'' else Inr 7),
       GenerateKey = keygen,
       PublicKeyPoint = (\<lambda>p. (int p, 1)),
       Marshal = (\<lambda>pid. []),
       StoreEncryptionKeys = (\<lambda>st pid pk sk. (None, pid # st)) \<rparr>"

section \<open>The public-input hashes of the circuits (the tests of \<^verbatim>\<open>voteverifier\<close> and \<^verbatim>\<open>aggregator\<close>)\<close>

subsection \<open>The batch hash: \<^verbatim>\<open>ComputePublicInputsHashFromBLS12377ToBW6761\<close>\<close>

text \<open>
  A \<^verbatim>\<open>frontend.Variable\<close> is an \<^verbatim>\<open>interface{}\<close>: the cases are the dynamic types that
  \<^verbatim>\<open>getBigIntFromVariable\<close> tells apart, and \<open>Unsupported\<close> carries the name of any other
  type. An \<^verbatim>\<open>emulated.Element\<close> is read through its \<open>Limbs\<close> only.
\<close>

datatype Variable =
    BigIntPtr int
  | BigIntVal int
  | Uint64 "64 word"
  | GoInt "64 word"
  | GoString string
  | Unsupported string

record Element =
  Limbs :: "Variable list"

text \<open>\<^verbatim>\<open>big.Int.SetString(s, 10)\<close>: an optional sign and then one or more decimal digits,
  nothing else.\<close>

definition digit_of :: "char \<Rightarrow> int option" where
  "digit_of c = (let n = (of_char c :: nat) in if 48 \<le> n \<and> n \<le> 57 then Some (int n - 48) else None)"

fun parse_digits :: "int \<Rightarrow> string \<Rightarrow> int option" where
  "parse_digits acc [] = Some acc"
| "parse_digits acc (c # cs) =
     (case digit_of c of None \<Rightarrow> None | Some d \<Rightarrow> parse_digits (acc * 10 + d) cs)"

definition SetString10 :: "string \<Rightarrow> int option" where
  "SetString10 s =
     (case s of
        [] \<Rightarrow> None
      | c # cs \<Rightarrow>
          if c = CHR ''-'' then (if cs = [] then None else map_option uminus (parse_digits 0 cs))
          else if c = CHR ''+'' then (if cs = [] then None else parse_digits 0 cs)
          else parse_digits 0 s)"

definition getBigIntFromVariable :: "Variable \<Rightarrow> string + int" where
  "getBigIntFromVariable v =
     (case v of
        BigIntPtr val \<Rightarrow> Inr val
      | BigIntVal val \<Rightarrow> Inr val
      | Uint64 val \<Rightarrow> Inr (uint val)
      | GoInt val \<Rightarrow> Inr (sint val)
      | GoString val \<Rightarrow>
          (case SetString10 val of
             None \<Rightarrow> Inl (''invalid string for big.Int: '' @ val)
           | Some bi \<Rightarrow> Inr bi)
      | Unsupported T \<Rightarrow> Inl (''unsupported variable type '' @ T))"

text \<open>\<^verbatim>\<open>x.FillBytes(buf)\<close>: the absolute value, big-endian, zero-extended to the length of
  the buffer; it panics when the value does not fit.\<close>

definition FillBytes :: "int \<Rightarrow> nat \<Rightarrow> panic + byte list" where
  "FillBytes x n =
     (if n < length (Bytes x) then Inl BufferTooSmall
      else Inr (replicate (n - length (Bytes x)) 0 @ Bytes x))"

text \<open>
  The hasher is the MiMC of the scalar field of BW6-761 (external library). Its state is
  the list of the blocks written so far; \<open>mimc_Sum\<close> (the method \<^verbatim>\<open>Sum\<close>), the digest of that list, is a
  parameter. A result is a panic, or the returned pair: an error, or the hash.
\<close>

definition fr_bls12377_Bytes :: nat where
  "fr_bls12377_Bytes = 32"

fun write_limbs :: "byte list list \<Rightarrow> Variable list \<Rightarrow> panic + (string + byte list list)" where
  "write_limbs h [] = Inr (Inr h)"
| "write_limbs h (limb # limbs) =
     (case getBigIntFromVariable limb of
        Inl err \<Rightarrow> Inr (Inl err)
      | Inr limbValue \<Rightarrow>
          (case FillBytes limbValue fr_bls12377_Bytes of
             Inl p \<Rightarrow> Inl p
           | Inr buf \<Rightarrow> write_limbs (h @ [buf]) limbs))"

fun write_inputs :: "byte list list \<Rightarrow> Element list \<Rightarrow> panic + (string + byte list list)" where
  "write_inputs h [] = Inr (Inr h)"
| "write_inputs h (input # inputs) =
     (case write_limbs h (Limbs input) of
        Inl p \<Rightarrow> Inl p
      | Inr (Inl err) \<Rightarrow> Inr (Inl err)
      | Inr (Inr h') \<Rightarrow> write_inputs h' inputs)"

definition ComputePublicInputsHashFromBLS12377ToBW6761 ::
  "(byte list list \<Rightarrow> byte list) \<Rightarrow> Element list \<Rightarrow> panic + (string + int)" where
  "ComputePublicInputsHashFromBLS12377ToBW6761 mimc_Sum publicInputs =
     (case write_inputs [] publicInputs of
        Inl p \<Rightarrow> Inl p
      | Inr (Inl err) \<Rightarrow> Inr (Inl err)
      | Inr (Inr h) \<Rightarrow> Inr (Inr (SetBytes (mimc_Sum h))))"

subsection \<open>The data of the tests\<close>

text \<open>
  The values \<^verbatim>\<open>TestVerifyVoteCircuit\<close> and \<^verbatim>\<open>TestAggregatorCircuit\<close> compute with: the
  process parameters, the encryption key, the process id and the census root, and for
  each voter the address, the secret key of the account, the nullifier, the commitment
  and the flattened ciphertext coordinates. The process parameters and the weight are Go
  \<^verbatim>\<open>int\<close>s, of 64 bits. \<open>PowCost\<close> is \<^verbatim>\<open>int(math.Pow(float64(MaxValue), float64(CostExp)))\<close>,
  which the tests compute in floating point; \<open>MaxTotalCost\<close> is its product with
  \<open>MaxCount\<close>, a product of two \<^verbatim>\<open>int\<close>s, which wraps.
\<close>

record voter =
  address :: "byte list"
  privKey :: nat
  nullifier :: int
  commitment :: int
  plainCipherfields :: "int list"

record test_data =
  MaxCount :: "64 word"
  ForceUniqueness :: "64 word"
  MaxValue :: "64 word"
  MinValue :: "64 word"
  PowCost :: "64 word"
  CostExp :: "64 word"
  CostFromWeight :: "64 word"
  Weight :: "64 word"
  encryptionKeyX :: int
  encryptionKeyY :: int
  processID :: "byte list"
  censusRoot :: int
  voters :: "voter list"

definition MaxTotalCost :: "test_data \<Rightarrow> int" where
  "MaxTotalCost t = sint (PowCost t * MaxCount t)"

text \<open>The eight process parameters in the order in which both tests list them.\<close>

definition process_parameters :: "test_data \<Rightarrow> int list" where
  "process_parameters t =
     [sint (MaxCount t), sint (ForceUniqueness t), sint (MaxValue t), sint (MinValue t),
      MaxTotalCost t, sint (MaxCount t), sint (CostExp t), sint (CostFromWeight t)]"

text \<open>
  \<^verbatim>\<open>emulated.ValueOf[sw_bls12377.ScalarField]\<close> (external library \<^verbatim>\<open>gnark\<close>) packs a constant
  into an element of the emulated scalar field of BLS12-377, of four limbs of 64 bits:
  unless the constant is the modulus itself it is reduced modulo the field
  (\<^verbatim>\<open>bValue.Mod(&bValue, fp.Modulus())\<close>, the Euclidean remainder); then the loop of
  \<^verbatim>\<open>decompose\<close> takes the limbs off, least significant first, as \<^verbatim>\<open>*big.Int\<close> values. The
  reduced value is below \<open>2\<^sup>2\<^sup>5\<^sup>3\<close>, so it fits the four limbs, which is what \<^verbatim>\<open>decompose\<close>
  checks first.
\<close>

definition fr_bls12377_modulus :: int where
  "fr_bls12377_modulus =
     8444461749428370424248824938781546531375899335154063827935233455917409239041"

fun decompose :: "int \<Rightarrow> nat \<Rightarrow> nat \<Rightarrow> int list" where
  "decompose tmp nbBits 0 = []"
| "decompose tmp nbBits (Suc n) = tmp mod 2 ^ nbBits # decompose (tmp div 2 ^ nbBits) nbBits n"

definition ValueOf :: "int \<Rightarrow> Element" where
  "ValueOf constant =
     (let bValue = (if fr_bls12377_modulus \<noteq> constant then constant mod fr_bls12377_modulus
                    else constant)
      in \<lparr>Limbs = map BigIntPtr (decompose bValue 64 4)\<rparr>)"

text \<open>The list \<^verbatim>\<open>inputs\<close> that \<^verbatim>\<open>TestAggregatorCircuit\<close> builds, and the value it declares
  as \<^verbatim>\<open>InputsHash\<close> of the aggregator witness.\<close>

definition aggregator_inputs :: "test_data \<Rightarrow> Element list" where
  "aggregator_inputs t =
     [ValueOf (sint (MaxCount t)),
      ValueOf (sint (ForceUniqueness t)),
      ValueOf (sint (MaxValue t)),
      ValueOf (sint (MinValue t)),
      ValueOf (sint (PowCost t * MaxCount t)),
      ValueOf (sint (MaxCount t)),
      ValueOf (sint (CostExp t)),
      ValueOf (sint (CostFromWeight t)),
      ValueOf (encryptionKeyX t),
      ValueOf (encryptionKeyY t),
      ValueOf (SetBytes (processID t)),
      ValueOf (censusRoot t)]
     @ map (\<lambda>v. ValueOf (nullifier v)) (voters t)
     @ map (\<lambda>v. ValueOf (commitment v)) (voters t)
     @ map (\<lambda>v. ValueOf (SetBytes (address v))) (voters t)
     @ map ValueOf (concat (map plainCipherfields (voters t)))"

definition aggregator_InputsHash ::
  "(byte list list \<Rightarrow> byte list) \<Rightarrow> test_data \<Rightarrow> panic + (string + int)" where
  "aggregator_InputsHash mimc_Sum t =
     ComputePublicInputsHashFromBLS12377ToBW6761 mimc_Sum (aggregator_inputs t)"

text \<open>
  The fields of the witness \<^verbatim>\<open>AggregatorCircuit\<close> that the batch hash concerns:
  \<open>BatchInputsHash\<close> is its field \<^verbatim>\<open>InputsHash\<close>, \<open>BatchParameters\<close> its fields \<^verbatim>\<open>MaxCount\<close>,
  \<^verbatim>\<open>ForceUniqueness\<close>, \<^verbatim>\<open>MaxValue\<close>, \<^verbatim>\<open>MinValue\<close>, \<^verbatim>\<open>MaxTotalCost\<close>, \<^verbatim>\<open>MinTotalCost\<close>, \<^verbatim>\<open>CostExp\<close>
  and \<^verbatim>\<open>CostFromWeight\<close>, \<open>BatchEncryptionPubKey\<close>, \<open>BatchProcessId\<close> and \<open>BatchCensusRoot\<close> its
  fields \<^verbatim>\<open>EncryptionPubKey\<close>, \<^verbatim>\<open>ProcessId\<close> and \<^verbatim>\<open>CensusRoot\<close>; the ballots are flattened.
  \<open>finalWitness\<close> is the witness that \<^verbatim>\<open>TestAggregatorCircuit\<close> assigns, given the hash it
  computed.
\<close>

record AggregatorCircuit =
  BatchInputsHash :: int
  BatchParameters :: "int list"
  BatchEncryptionPubKey :: "int \<times> int"
  BatchProcessId :: int
  BatchCensusRoot :: int
  Nullifiers :: "int list"
  Commitments :: "int list"
  Addresses :: "int list"
  EncryptedBallots :: "int list"

definition finalWitness :: "int \<Rightarrow> test_data \<Rightarrow> AggregatorCircuit" where
  "finalWitness publicHash t =
     \<lparr>BatchInputsHash = publicHash,
      BatchParameters = process_parameters t,
      BatchEncryptionPubKey = (encryptionKeyX t, encryptionKeyY t),
      BatchProcessId = SetBytes (processID t),
      BatchCensusRoot = censusRoot t,
      Nullifiers = map nullifier (voters t),
      Commitments = map commitment (voters t),
      Addresses = map (\<lambda>v. SetBytes (address v)) (voters t),
      EncryptedBallots = concat (map plainCipherfields (voters t))\<rparr>"

text \<open>
  The batch hash in words: the values in the order of the claim; each value reduced
  modulo the scalar field of BLS12-377, the modulus itself excepted; the four limbs of
  64 bits of the reduced value, least significant first; each limb a block of 32 bytes,
  most significant byte first; and the digest of all blocks read as a number.
  \<open>raw_blocks\<close> are the blocks of the values as they are, not reduced.
\<close>

definition be_block :: "int \<Rightarrow> byte list" where
  "be_block v = map (\<lambda>i. of_int (v div 256 ^ i)) (rev [0..<32])"

definition field_reduced :: "int \<Rightarrow> int" where
  "field_reduced v = (if v = fr_bls12377_modulus then v else v mod fr_bls12377_modulus)"

definition limbs_64 :: "int \<Rightarrow> int list" where
  "limbs_64 x = [x mod 2 ^ 64, x div 2 ^ 64 mod 2 ^ 64, x div 2 ^ 128 mod 2 ^ 64,
                 x div 2 ^ 192 mod 2 ^ 64]"

definition batch_values :: "test_data \<Rightarrow> int list" where
  "batch_values t =
     process_parameters t
     @ [encryptionKeyX t, encryptionKeyY t]
     @ [SetBytes (processID t)]
     @ [censusRoot t]
     @ map nullifier (voters t)
     @ map commitment (voters t)
     @ map (\<lambda>v. SetBytes (address v)) (voters t)
     @ concat (map plainCipherfields (voters t))"

definition batch_blocks :: "int list \<Rightarrow> byte list list" where
  "batch_blocks vs = concat (map (\<lambda>v. map be_block (limbs_64 (field_reduced v))) vs)"

definition batch_hash_spec :: "(byte list list \<Rightarrow> byte list) \<Rightarrow> test_data \<Rightarrow> int" where
  "batch_hash_spec mimc_Sum t = SetBytes (mimc_Sum (batch_blocks (batch_values t)))"

definition raw_blocks :: "int list \<Rightarrow> byte list list" where
  "raw_blocks vs = concat (map (\<lambda>v. map be_block (limbs_64 v)) vs)"

text \<open>
  Modelled from the spec: the circuit itself (\<^verbatim>\<open>AggregatorCircuit.Define\<close>) is not among the
  sources. \<open>RecomputesBatchHash\<close> is steps 2 and 3 of the Aggregation Predicate on the
  fields above: the batch hash recomputed over the process parameters, the encryption
  key, the process id, the census root and the nullifiers, commitments, addresses and
  ciphertext coordinates of all voters is the declared \<open>InputsHash\<close>. Step 1, the
  verification of the vote proofs, is left out.
\<close>

definition aggregation_values :: "AggregatorCircuit \<Rightarrow> int list" where
  "aggregation_values w =
     BatchParameters w
     @ [fst (BatchEncryptionPubKey w), snd (BatchEncryptionPubKey w)]
     @ [BatchProcessId w]
     @ [BatchCensusRoot w]
     @ Nullifiers w @ Commitments w @ Addresses w @ EncryptedBallots w"

definition RecomputesBatchHash :: "(byte list list \<Rightarrow> byte list) \<Rightarrow> AggregatorCircuit \<Rightarrow> bool" where
  "RecomputesBatchHash mimc_Sum w =
     (BatchInputsHash w = SetBytes (mimc_Sum (batch_blocks (aggregation_values w))))"

text \<open>A stand-in for the digest, to run the hash on concrete data: the number of
  blocks written, as one byte.\<close>

definition count_blocks :: "byte list list \<Rightarrow> byte list" where
  "count_blocks h = [of_nat (length h)]"

subsection \<open>The vote witness: the signed message and the outer hash\<close>

text \<open>
  The digests and the signatures of the tests come from external libraries (\<^verbatim>\<open>mimc7\<close> of
  iden3, the MiMC of gnark-crypto over BLS12-377, ECDSA over secp256k1). A value of the
  tests is a number or one of these results, which is represented by what it was
  computed from: a digest by the hash function and its inputs, a signature by the
  signing key and the signed message. So two digests are equal only if they are digests
  of the same inputs, and a signature verifies only for the key and the message it was
  made with. \<^verbatim>\<open>x.Bytes()\<close> and \<^verbatim>\<open>SetBytes\<close>, which only move a non-negative number to bytes
  and back, are left out.
\<close>

datatype val =
    Num int
  | MiMC7 "int list"
  | BigToFF int val
  | MiMC_BLS12_377 "val list"

datatype ecdsa_signature = SignECDSA nat val

datatype ecdsa_public = PublicOf nat


text \<open>\<^verbatim>\<open>arbo.BigToFF\<close> and \<^verbatim>\<open>util.BigToFF\<close> (external libraries) on a number: zero for the
  modulus, the number itself when it is in the field, its Euclidean remainder
  otherwise.\<close>

definition BigToFF_int :: "int \<Rightarrow> int \<Rightarrow> int" where
  "BigToFF_int baseField iv =
     (if iv = baseField then 0
      else if \<not> baseField < iv \<and> \<not> iv < 0 then iv
      else iv mod baseField)"

text \<open>
  The fields of the witness \<^verbatim>\<open>VerifyVoteCircuit\<close> that the hashes and the signature
  concern. \<open>ProcessParameters\<close> is its fields \<^verbatim>\<open>MaxCount\<close>, \<^verbatim>\<open>ForceUniqueness\<close>, \<^verbatim>\<open>MaxValue\<close>,
  \<^verbatim>\<open>MinValue\<close>, \<^verbatim>\<open>MaxTotalCost\<close>, \<^verbatim>\<open>MinTotalCost\<close>, \<^verbatim>\<open>CostExp\<close> and \<^verbatim>\<open>CostFromWeight\<close>,
  \<open>VoteEncryptionPubKey\<close> its field \<^verbatim>\<open>EncryptionPubKey\<close>; the ballot is flattened.
  \<open>CircomPublicInputsHash\<close> is the public signal of the client's proof, \<^verbatim>\<open>inputs_hash\<close>
  (\<^verbatim>\<open>parseCircomInputs\<close> calls it "the hash to sign"). \<open>Msg\<close> exists in the version of the
  circuit that the aggregator test uses. Where that version holds a number as an
  emulated element, the field here holds the number.
\<close>

record VerifyVoteCircuit =
  InputsHash :: val
  ProcessParameters :: "int list"
  Address :: int
  UserWeight :: int
  ProcessId :: int
  VoteEncryptionPubKey :: "int \<times> int"
  Nullifier :: int
  Commitment :: int
  EncryptedBallot :: "int list"
  CensusRoot :: int
  Msg :: "val option"
  PublicKey :: ecdsa_public
  Signature :: ecdsa_signature
  CircomPublicInputsHash :: val

text \<open>\<^verbatim>\<open>bigCircomInputs\<close>, the same list in both tests, for the voter \<open>v\<close>.\<close>

definition bigCircomInputs :: "test_data \<Rightarrow> voter \<Rightarrow> int list" where
  "bigCircomInputs t v =
     [sint (MaxCount t), sint (ForceUniqueness t), sint (MaxValue t), sint (MinValue t),
      sint (PowCost t * MaxCount t),
      sint (MaxCount t), sint (CostExp t), sint (CostFromWeight t),
      BigToFF_int fr_modulus (SetBytes (address v)),
      sint (Weight t),
      BigToFF_int fr_modulus (SetBytes (processID t)),
      encryptionKeyX t, encryptionKeyY t, nullifier v, commitment v]
     @ plainCipherfields v"


text \<open>The witness that \<^verbatim>\<open>TestAggregatorCircuit\<close> builds for each voter: the signature is
  made over \<^verbatim>\<open>blsCircomInputsHash\<close>, which is also \<^verbatim>\<open>Msg\<close>, and \<^verbatim>\<open>InputsHash\<close> is the MiMC
  digest of that hash and the census root.\<close>

definition TestAggregatorCircuit_vote_witness :: "test_data \<Rightarrow> voter \<Rightarrow> VerifyVoteCircuit" where
  "TestAggregatorCircuit_vote_witness t v =
     (let circomInputsHash = MiMC7 (bigCircomInputs t v);
          blsCircomInputsHash = BigToFF fr_bls12377_modulus circomInputsHash;
          sig = SignECDSA (privKey v) blsCircomInputsHash;
          inputsHash = MiMC_BLS12_377 [blsCircomInputsHash, Num (censusRoot t)]
      in \<lparr>InputsHash = inputsHash,
          ProcessParameters = process_parameters t,
          Address = SetBytes (address v),
          UserWeight = sint (Weight t),
          ProcessId = BigToFF_int fr_modulus (SetBytes (processID t)),
          VoteEncryptionPubKey = (encryptionKeyX t, encryptionKeyY t),
          Nullifier = nullifier v,
          Commitment = commitment v,
          EncryptedBallot = plainCipherfields v,
          CensusRoot = censusRoot t, Msg = Some blsCircomInputsHash,
          PublicKey = PublicOf (privKey v), Signature = sig,
          CircomPublicInputsHash = circomInputsHash\<rparr>)"


definition TestAggregatorCircuit ::
  "(VerifyVoteCircuit \<Rightarrow> bool) \<Rightarrow> (AggregatorCircuit \<Rightarrow> bool) \<Rightarrow> (byte list list \<Rightarrow> byte list)
     \<Rightarrow> test_data \<Rightarrow> bool" where
  "TestAggregatorCircuit Define Define_aggregator mimc_Sum t =
     (list_all (\<lambda>v. Define (TestAggregatorCircuit_vote_witness t v)) (voters t) \<and>
      (case aggregator_InputsHash mimc_Sum t of
         Inr (Inr publicHash) \<Rightarrow> Define_aggregator (finalWitness publicHash t)
       | _ \<Rightarrow> False))"





text \<open>The constants of \<^verbatim>\<open>vote_verifier_test.go\<close> with sample data for what the test draws
  at random, one voter with one ciphertext coordinate; and the same data with the
  coordinate 7 replaced by 7 plus the order of the scalar field of BLS12-377, which is
  another element of the field of the ciphertext's curve.\<close>

definition voter0 :: voter where
  "voter0 = \<lparr>address = [1, 2, 3], privKey = 11, nullifier = 101, commitment = 102,
             plainCipherfields = [7]\<rparr>"

definition test0 :: test_data where
  "test0 = \<lparr>MaxCount = 5, ForceUniqueness = 0, MaxValue = 16, MinValue = 0, PowCost = 256,
            CostExp = 2, CostFromWeight = 0, Weight = 10,
            encryptionKeyX = 3, encryptionKeyY = 4, processID = [9], censusRoot = 1234,
            voters = [voter0]\<rparr>"

definition test_unreduced :: test_data where
  "test_unreduced =
     test0\<lparr>voters := [voter0\<lparr>plainCipherfields := [7 + fr_bls12377_modulus]\<rparr>]\<rparr>"

section \<open>Auxiliary facts\<close>

subsection \<open>The byte encoding, the curve instance and the store\<close>

lemma le_val_take_le_digits: "0 \<le> m \<Longrightarrow> le_val (take n (le_digits m)) = m mod 256 ^ n"
proof (induction n arbitrary: m)
  case 0
  then show ?case by simp
next
  case (Suc n)
  show ?case
  proof (cases "m \<le> 0")
    case True
    with Suc.prems have "m = 0" by simp
    then show ?thesis by (simp add: le_digits.simps)
  next
    case False
    have u: "uint (of_int (m mod 256) :: byte) = m mod 256"
      by (simp add: uint_word_of_int take_bit_eq_mod)
    from False have nn: "0 \<le> m div 256" by simp
    have "le_val (take (Suc n) (le_digits m)) = m mod 256 + 256 * le_val (take n (le_digits (m div 256)))"
      using False by (subst le_digits.simps) (simp add: u)
    also have "\<dots> = m mod 256 + 256 * ((m div 256) mod 256 ^ n)"
      by (simp add: Suc.IH [OF nn])
    also have "\<dots> = m mod 256 ^ Suc n"
      by (simp add: zmod_zmult2_eq)
    finally show ?thesis .
  qed
qed

lemma le_val_append_zeros: "le_val (xs @ replicate k 0) = le_val xs"
  by (induction xs) (induction k, auto)

lemma SetBytes_snoc: "SetBytes (bs @ [b]) = SetBytes bs * 256 + uint b"
  by (simp add: SetBytes_def)

lemma SetBytes_rev: "SetBytes (rev bs) = le_val bs"
  by (induction bs) (auto simp: SetBytes_snoc, simp add: SetBytes_def)

lemma BytesToBigInt_le_val: "BytesToBigInt bs = le_val bs"
  by (simp add: BytesToBigInt_def SwapEndianness_def SetBytes_rev)

lemma length_BigIntToBytes: "length (BigIntToBytes blen bi) = blen"
  by (simp add: BigIntToBytes_def copy_bytes_def)

lemma le_val_BigIntToBytes: "le_val (BigIntToBytes blen v) = \<bar>v\<bar> mod 256 ^ blen"
proof -
  have "BigIntToBytes blen v =
          take blen (le_digits \<bar>v\<bar>) @ replicate (blen - length (le_digits \<bar>v\<bar>)) 0"
    by (simp add: BigIntToBytes_def copy_bytes_def SwapEndianness_def Bytes_def)
  then show ?thesis by (simp add: le_val_append_zeros le_val_take_le_digits)
qed

lemma BytesToBigInt_BigIntToBytes:
  "0 \<le> v \<Longrightarrow> v < 2 ^ 256 \<Longrightarrow> BytesToBigInt (BigIntToBytes 32 v) = v"
  by (simp add: BytesToBigInt_le_val le_val_BigIntToBytes)

lemma negFInv_inverse: "negF * negFInv mod fr_modulus = 1"
  by (simp add: negF_def negFInv_def fr_modulus_def scalingFactor_def)

lemma fe_pow_one_aux: "x = 1 \<Longrightarrow> fe_pow x n = 1"
proof (induction x n rule: fe_pow.induct)
  case (1 x n)
  have one: "(1::int) mod fr_modulus = 1" by (simp add: fr_modulus_def)
  show ?case
  proof (cases "n \<le> 0")
    case True
    then show ?thesis by (simp add: fe_pow.simps)
  next
    case False
    with 1 have "fe_pow (x * x mod fr_modulus) (n div 2) = 1"
      by (simp add: one)
    with False 1(2) show ?thesis
      by (subst fe_pow.simps) (simp add: one Let_def)
  qed
qed

lemma fe_pow_one: "fe_pow 1 n = 1"
  by (simp add: fe_pow_one_aux)

lemma fe_inv_one: "fe_inv 1 = 1"
  by (simp add: fe_inv_def fe_pow_one)

lemma te_add_commute: "te_add P Q = te_add Q P"
  by (cases P; cases Q) (simp add: te_add_def mult.commute add.commute mult.left_commute)

lemma te_add_order2: "te_add (0, fr_modulus - 1) (0, fr_modulus - 1) = (0, 1)"
  by (simp add: te_add_def fe_inv_one fr_modulus_def)

lemma te_add_id: "te_add (0, 1) (0, 1) = (0, 1)"
  by (simp add: te_add_def fe_inv_one fr_modulus_def)

lemma te_add_id2: "te_add (0, fr_modulus - 1) (0, 1) = (0, fr_modulus - 1)"
  by (simp add: te_add_def fe_inv_one fr_modulus_def)

lemma show_int_128: "show_int 128 = ''128''"
  by (simp add: show_int_def show_digits.simps)

lemma load_point_update:
  "load_point (h\<lparr>points := (points h)[r := v]\<rparr>) q =
     (if q = r \<and> r < length (points h) then Some v else load_point h q)"
  by (simp add: load_point_def)

lemma load_ct_points_update [simp]:
  "load_ct (h\<lparr>points := ps\<rparr>) z = load_ct h z"
  by (simp add: load_ct_def)

lemma load_pointD: "load_point h r = Some v \<Longrightarrow> r < length (points h) \<and> points h ! r = v"
  by (simp add: load_point_def split: if_splits)

lemma SafeAdd_at_closed:
  assumes "load_point h r = Some v" "load_point h a = Some va" "load_point h b = Some vb"
  shows "SafeAdd_at cv h r a b = Inr (h\<lparr>points := (points h)[r := SafeAdd cv va vb]\<rparr>)"
  using assms by (simp add: SafeAdd_at_def)

lemma Add_exact:
  assumes "load_ct h z = Some zc" "load_ct h x = Some xc" "load_ct h y = Some yc"
    and "load_point h (C1 zc) = Some z1" "load_point h (C2 zc) = Some z2"
    and "load_point h (C1 xc) = Some x1" "load_point h (C2 xc) = Some x2"
    and "load_point h (C1 yc) = Some y1" "load_point h (C2 yc) = Some y2"
  shows "Add cv h z x y =
           Inr (z, h\<lparr>points := (points h)[C1 zc := SafeAdd cv x1 y1,
                       C2 zc := SafeAdd cv (if C2 xc = C1 zc then SafeAdd cv x1 y1 else x2)
                                           (if C2 yc = C1 zc then SafeAdd cv x1 y1 else y2)]\<rparr>)"
proof -
  let ?s1 = "SafeAdd cv x1 y1"
  let ?h1 = "h\<lparr>points := (points h)[C1 zc := ?s1]\<rparr>"
  have s1: "SafeAdd_at cv h (C1 zc) (C1 xc) (C1 yc) = Inr ?h1"
    using assms by (simp add: SafeAdd_at_closed)
  have l: "C1 zc < length (points h)" "C2 zc < length (points h)"
    using assms(4,5) by (auto dest: load_pointD)
  have p2: "load_point ?h1 (C2 xc) = Some (if C2 xc = C1 zc then ?s1 else x2)"
    "load_point ?h1 (C2 yc) = Some (if C2 yc = C1 zc then ?s1 else y2)"
    using assms(7,9) l(1) by (simp_all add: load_point_update)
  obtain v where "load_point ?h1 (C2 zc) = Some v"
    using l(2) by (simp add: load_point_def)
  then have s2: "SafeAdd_at cv ?h1 (C2 zc) (C2 xc) (C2 yc) =
      Inr (?h1\<lparr>points := (points ?h1)[C2 zc :=
             SafeAdd cv (if C2 xc = C1 zc then ?s1 else x2) (if C2 yc = C1 zc then ?s1 else y2)]\<rparr>)"
    using p2 by (rule SafeAdd_at_closed)
  show ?thesis
    using assms(1-3) s1 s2 by (simp add: Add_def)
qed

lemma Add_closed_form:
  assumes "load_ct h z = Some zc" "load_ct h x = Some xc" "load_ct h y = Some yc"
    and "load_point h (C1 zc) = Some z1" "load_point h (C2 zc) = Some z2"
    and "load_point h (C1 xc) = Some x1" "load_point h (C2 xc) = Some x2"
    and "load_point h (C1 yc) = Some y1" "load_point h (C2 yc) = Some y2"
    and "C1 zc \<noteq> C2 xc" "C1 zc \<noteq> C2 yc"
  shows "Add cv h z x y =
           Inr (z, h\<lparr>points := (points h)[C1 zc := SafeAdd cv x1 y1, C2 zc := SafeAdd cv x2 y2]\<rparr>)"
proof -
  let ?h1 = "h\<lparr>points := (points h)[C1 zc := SafeAdd cv x1 y1]\<rparr>"
  have s1: "SafeAdd_at cv h (C1 zc) (C1 xc) (C1 yc) = Inr ?h1"
    using assms by (simp add: SafeAdd_at_closed)
  have l: "C2 zc < length (points h)" "C2 xc < length (points h)" "C2 yc < length (points h)"
    using assms by (auto simp: load_point_def split: if_splits)
  have p2: "load_point ?h1 (C2 xc) = Some x2" "load_point ?h1 (C2 yc) = Some y2"
    using assms by (auto simp: load_point_update)
  have pz: "\<exists>v. load_point ?h1 (C2 zc) = Some v"
    using l by (simp add: load_point_def)
  then obtain v where "load_point ?h1 (C2 zc) = Some v" ..
  then have s2: "SafeAdd_at cv ?h1 (C2 zc) (C2 xc) (C2 yc) =
      Inr (?h1\<lparr>points := (points ?h1)[C2 zc := SafeAdd cv x2 y2]\<rparr>)"
    using p2 by (rule SafeAdd_at_closed)
  show ?thesis
    using assms(1-3) s1 s2 by (simp add: Add_def)
qed

lemma ct_pointsD:
  assumes "ct_points h z = Some (a, b)"
  obtains c where "load_ct h z = Some c" "load_point h (C1 c) = Some a" "load_point h (C2 c) = Some b"
  using assms by (auto simp: ct_points_def split: option.splits)

lemma ct_pointsI:
  "load_ct h z = Some c \<Longrightarrow> load_point h (C1 c) = Some a \<Longrightarrow> load_point h (C2 c) = Some b
     \<Longrightarrow> ct_points h z = Some (a, b)"
  by (simp add: ct_points_def)

lemma Serialize_closed:
  assumes "ct_points h z = Some (p1, p2)"
    and "FromTEtoRTE cv (fst (Point cv p1)) (snd (Point cv p1)) = (c1x, c1y)"
    and "FromTEtoRTE cv (fst (Point cv p2)) (snd (Point cv p2)) = (c2x, c2y)"
  shows "Serialize cv h z =
           Inr (BigIntToBytes 32 c1x @ BigIntToBytes 32 c1y @ BigIntToBytes 32 c2x @ BigIntToBytes 32 c2y)"
proof -
  from assms(1) obtain c where
    "load_ct h z = Some c" "load_point h (C1 c) = Some p1" "load_point h (C2 c) = Some p2"
    by (rule ct_pointsD)
  then show ?thesis
    using assms(2,3) by (simp add: Serialize_def sizePointCoord_def split_beta)
qed

lemma slice_chunks:
  assumes "length a = 32" "length b = 32" "length c = 32" "length d = 32"
  shows "slice (a @ b @ c @ d) 0 32 = a" "slice (a @ b @ c @ d) 32 64 = b"
        "slice (a @ b @ c @ d) 64 96 = c" "slice (a @ b @ c @ d) 96 128 = d"
  using assms by (simp_all add: slice_def)

lemma Deserialize_128:
  assumes "length data = 128" "load_ct h z = Some zc"
    and "load_point h (C1 zc) = Some q1" "load_point h (C2 zc) = Some q2"
    and "decode_point cv data 0 = Inr a" "decode_point cv data 64 = Inr b"
  shows "Deserialize cv h z data =
           Inr (None, \<lparr>points = points h @ [a, b],
                       ciphertexts = (ciphertexts h)[z := \<lparr>C1 = length (points h),
                                                          C2 = Suc (length (points h))\<rparr>]\<rparr>)"
  using assms
  by (cases h; cases zc)
    (simp add: Deserialize_def sizePointCoord_def new_point_def decode_point_def
      split_beta Let_def)

lemma Deserialize_128_first_panic:
  assumes "length data = 128" "load_ct h z = Some zc" "load_point h (C1 zc) = Some q1"
    and "decode_point cv data 0 = Inl p"
  shows "Deserialize cv h z data = Inl p"
  using assms
  by (simp add: Deserialize_def sizePointCoord_def decode_point_def split_beta Let_def)

lemma Deserialize_128_second_panic:
  assumes "length data = 128" "load_ct h z = Some zc"
    and "load_point h (C1 zc) = Some q1" "load_point h (C2 zc) = Some q2"
    and "decode_point cv data 0 = Inr a" "decode_point cv data 64 = Inl p"
  shows "Deserialize cv h z data = Inl p"
  using assms
  by (simp add: Deserialize_def sizePointCoord_def decode_point_def split_beta Let_def)

lemma ct_points_after_Deserialize:
  assumes "load_ct h z = Some zc"
  shows "ct_points \<lparr>points = points h @ [a, b],
                    ciphertexts = (ciphertexts h)[z := \<lparr>C1 = length (points h),
                                                       C2 = Suc (length (points h))\<rparr>]\<rparr> z = Some (a, b)"
  using assms
  by (simp add: ct_points_def load_ct_def load_point_def nth_append split: if_splits)

lemma heap0_eq: "heap0 = \<lparr>points = [(0, 1), (0, 1)], ciphertexts = [\<lparr>C1 = 0, C2 = 1\<rparr>]\<rparr>"
  by (simp add: heap0_def NewCiphertext_def new_point_def bjj_def)

lemma ct_points_heap0: "ct_points heap0 0 = Some ((0, 1), (0, 1))"
  by (simp add: heap0_eq ct_points_def load_ct_def load_point_def)

lemma te_on_curve_canonical:
  assumes "te_on_curve P"
  shows "canonical bjj P"
proof -
  obtain x y where P: "P = (x, y)" by (cases P)
  from assms have r: "0 \<le> x" "x < fr_modulus" "0 \<le> y" "y < fr_modulus"
    by (simp_all add: te_on_curve_def P)
  have p: "fr_modulus < 2 ^ 256" "0 < fr_modulus" by (simp_all add: fr_modulus_def)
  let ?u = "x * negFInv mod fr_modulus"
  have "?u * negF mod fr_modulus = x * (negF * negFInv mod fr_modulus) mod fr_modulus"
    by (metis mod_mult_left_eq mod_mult_right_eq mult.assoc mult.commute)
  then have bk: "?u * negF mod fr_modulus = x"
    using r by (simp add: negFInv_inverse)
  have "0 \<le> ?u" "?u < fr_modulus" using p by simp_all
  then have "0 \<le> ?u" "?u < 2 ^ 256" "y < 2 ^ 256" using p r by linarith+
  then show ?thesis
    using r bk assms by (simp add: canonical_def bjj_def P)
qed

lemma readBigInt_chunks:
  assumes "length a = 32" "length b = 32" "length c = 32" "length d = 32"
  shows "readBigInt (a @ b @ c @ d) 0 = le_val a" "readBigInt (a @ b @ c @ d) 32 = le_val b"
        "readBigInt (a @ b @ c @ d) 64 = le_val c" "readBigInt (a @ b @ c @ d) 96 = le_val d"
  using assms
  by (simp_all add: readBigInt_def sizePointCoord_def BytesToBigInt_le_val slice_def)

lemma decode_point_roundtrip:
  assumes "canonical cv v"
    and "FromTEtoRTE cv (fst (Point cv v)) (snd (Point cv v)) = (u, w)"
    and "readBigInt data off = u" "readBigInt data (off + 32) = w"
  shows "\<exists>v'. decode_point cv data off = Inr v' \<and> Point cv v' = Point cv v"
  using assms
  by (auto simp: canonical_def decode_point_def sizePointCoord_def split_beta split: sum.splits)

lemma mod_by_quotient:
  assumes "a = q * m + r" "0 \<le> r" "r < m"
  shows "a mod m = (r::int)"
  using assms by simp

lemma te_base_on_curve: "te_on_curve te_base"
proof -
  have xx: "9671717474070082183213120605117400219616337014328744928644933853176787189663 *
            9671717474070082183213120605117400219616337014328744928644933853176787189663 mod fr_modulus =
            20335219358600694829391011584909519991873096880692865659592680579752337572945"
    by (rule mod_by_quotient
          [where q = 4273623947154795079848318133865361596345531925844037283204303745420822978672])
      (simp_all add: fr_modulus_def)
  have yy: "16950150798460657717958625567821834550301663161624707787222815936182638968203 *
            16950150798460657717958625567821834550301663161624707787222815936182638968203 mod fr_modulus =
            11976306643719063753190278949402960726252923955722022258665135291130529546895"
    by (rule mod_by_quotient
          [where q = 13126115868359511340460820844889397414038424881599594996385915013151266539242])
      (simp_all add: fr_modulus_def)
  have xy: "20335219358600694829391011584909519991873096880692865659592680579752337572945 *
            11976306643719063753190278949402960726252923955722022258665135291130529546895 mod fr_modulus =
            7480446449663510638960087588935566232812121500942309818614268574471283485456"
    by (rule mod_by_quotient
          [where q = 11126558862302555207315054277264078758087473299382406089898969685013645353007])
      (simp_all add: fr_modulus_def)
  have lhs: "(11976306643719063753190278949402960726252923955722022258665135291130529546895 -
              20335219358600694829391011584909519991873096880692865659592680579752337572945) mod fr_modulus =
             13529330156957644146045673109750715822928191475445190942770658897954000469567"
    by (rule mod_by_quotient [where q = "- 1"]) (simp_all add: fr_modulus_def)
  have rhs: "(1 + te_d * 7480446449663510638960087588935566232812121500942309818614268574471283485456)
               mod fr_modulus =
             13529330156957644146045673109750715822928191475445190942770658897954000469567"
    by (rule mod_by_quotient
          [where q = 4163154453266198499529844122999303156290838550565925217842658256786958292130])
      (simp_all add: fr_modulus_def te_d_def)
  have r: "(0::int) \<le> 9671717474070082183213120605117400219616337014328744928644933853176787189663"
    "9671717474070082183213120605117400219616337014328744928644933853176787189663 < fr_modulus"
    "(0::int) \<le> 16950150798460657717958625567821834550301663161624707787222815936182638968203"
    "16950150798460657717958625567821834550301663161624707787222815936182638968203 < fr_modulus"
    by (simp_all add: fr_modulus_def)
  show ?thesis
    unfolding te_on_curve_def te_base_def prod.case Let_def xx yy xy lhs rhs
    using r by simp
qed

lemma te_base_canonical: "canonical bjj te_base"
  by (rule te_on_curve_canonical [OF te_base_on_curve])

lemma id_on_curve: "te_on_curve (0, 1)"
  by (simp add: te_on_curve_def fr_modulus_def te_d_def Let_def)

lemma ct_points_heapG: "ct_points heapG 0 = Some (te_base, (0, 1))"
  by (simp add: heapG_def ct_points_def load_ct_def load_point_def)

lemma le_val_replicate_zero: "le_val (replicate k 0) = 0"
  using le_val_append_zeros [of "[]" k] by simp

lemma le_val_replicate_255: "le_val (replicate k 255) = 256 ^ k - 1"
  by (induction k) simp_all

lemma readBigInt_replicate:
  assumes "off + 32 \<le> n"
  shows "readBigInt (replicate n b) off = le_val (replicate 32 b)"
proof -
  from assms have "min (n - off) 32 = 32" by simp
  then show ?thesis
    by (simp add: readBigInt_def sizePointCoord_def BytesToBigInt_le_val slice_def)
qed

lemma Deserialize_error_only_length:
  assumes "Deserialize cv h z data = Inr (Some e, h')"
  shows "length data \<noteq> 128"
  using assms
  by (auto simp: Deserialize_def sizePointCoord_def new_point_def split_beta Let_def
      split: if_splits option.splits sum.splits)

lemma origin_off_curve: "\<not> te_on_curve (0, 0)"
  by (simp add: te_on_curve_def fr_modulus_def te_d_def Let_def)

lemma SetPoint_bjj_range:
  assumes "\<not> y < fr_modulus"
  shows "SetPoint bjj x y = Inl CoordinatesNotOnCurve"
  using assms by (simp add: bjj_def te_on_curve_def)

lemma decode_zeros: "decode_point bjj (replicate 128 0) 0 = Inl CoordinatesNotOnCurve"
  by (simp add: decode_point_def sizePointCoord_def readBigInt_replicate
      le_val_replicate_zero bjj_def origin_off_curve)

lemma decode_ff: "decode_point bjj (replicate 128 255) 0 = Inl CoordinatesNotOnCurve"
proof -
  have "\<not> (2 ^ 256 - 1 < fr_modulus)" by (simp add: fr_modulus_def)
  then have "SetPoint bjj x (256 ^ 32 - 1) = Inl CoordinatesNotOnCurve" for x
    by (intro SetPoint_bjj_range) simp
  moreover have "snd (FromRTEtoTE bjj u w) = w" for u w by (simp add: bjj_def)
  ultimately show ?thesis
    by (simp add: decode_point_def sizePointCoord_def readBigInt_replicate
        le_val_replicate_255 split_beta)
qed

lemma wire_identity_chunks:
  "length wire_identity = 128"
  "readBigInt wire_identity 0 = 0" "readBigInt wire_identity 32 = 1"
  "readBigInt wire_identity 64 = 0" "readBigInt wire_identity 96 = 1"
proof -
  note r = readBigInt_chunks [of "replicate 32 0" "1 # replicate 31 0"
      "replicate 32 0" "1 # replicate 31 0"]
  show "length wire_identity = 128" by (simp add: wire_identity_def)
  show "readBigInt wire_identity 0 = 0" "readBigInt wire_identity 32 = 1"
    "readBigInt wire_identity 64 = 0" "readBigInt wire_identity 96 = 1"
    unfolding wire_identity_def
    by (simp_all only: r length_replicate list.size le_val.simps le_val_replicate_zero) simp_all
qed

lemma decode_wire_identity:
  "decode_point bjj wire_identity 0 = Inr (0, 1)" "decode_point bjj wire_identity 64 = Inr (0, 1)"
  by (simp_all add: decode_point_def sizePointCoord_def wire_identity_chunks bjj_def id_on_curve)

lemma Encrypt_with_closed:
  assumes "load_point h publicKey = Some pk" "load_ct h z = Some zc"
  shows "Encrypt_with cv h z message publicKey k =
     Inr ((Some z, None),
          \<lparr>points = points h @ [ScalarBaseMult cv k,
                                SafeAdd cv (ScalarBaseMult cv message) (ScalarMult cv pk k)],
           ciphertexts = (ciphertexts h)[z := \<lparr>C1 = length (points h),
                                              C2 = Suc (length (points h))\<rparr>]\<rparr>)"
  using assms
  by (cases h; cases zc)
    (simp add: Encrypt_with_def EncryptWithK_def new_point_def load_ct_def load_point_def
      split: if_splits)

lemma Encrypt_with_error:
  "Encrypt_with cv h z message publicKey k \<noteq> Inr ((r, Some e), h')"
  by (simp add: Encrypt_with_def EncryptWithK_def new_point_def split_beta Let_def
      split: option.splits)

lemma Add_general:
  assumes "load_ct h z = Some zc" "load_ct h x = Some xc" "load_ct h y = Some yc"
    and "load_point h (C1 zc) = Some z1" "load_point h (C2 zc) = Some z2"
    and "load_point h (C1 xc) = Some x1" "load_point h (C2 xc) = Some x2"
    and "load_point h (C1 yc) = Some y1" "load_point h (C2 yc) = Some y2"
  shows "\<exists>v1 v2. Add cv h z x y = Inr (z, h\<lparr>points := (points h)[C1 zc := v1, C2 zc := v2]\<rparr>)"
proof -
  let ?h1 = "h\<lparr>points := (points h)[C1 zc := SafeAdd cv x1 y1]\<rparr>"
  have s1: "SafeAdd_at cv h (C1 zc) (C1 xc) (C1 yc) = Inr ?h1"
    using assms by (simp add: SafeAdd_at_closed)
  have l: "C2 zc < length (points ?h1)" "C2 xc < length (points ?h1)" "C2 yc < length (points ?h1)"
    using assms by (auto dest: load_pointD)
  then obtain a b c where
    "load_point ?h1 (C2 zc) = Some a" "load_point ?h1 (C2 xc) = Some b" "load_point ?h1 (C2 yc) = Some c"
    unfolding load_point_def by simp
  then have s2: "SafeAdd_at cv ?h1 (C2 zc) (C2 xc) (C2 yc) =
      Inr (?h1\<lparr>points := (points ?h1)[C2 zc := SafeAdd cv b c]\<rparr>)"
    by (rule SafeAdd_at_closed)
  have "Add cv h z x y = Inr (z, h\<lparr>points := (points h)[C1 zc := SafeAdd cv x1 y1, C2 zc := SafeAdd cv b c]\<rparr>)"
    using assms(1-3) s1 s2 by (simp add: Add_def)
  then show ?thesis by blast
qed

lemma Add_commute:
  assumes "\<And>a b. SafeAdd cv a b = SafeAdd cv b a"
  shows "Add cv h z y x = Add cv h z x y"
proof -
  have c: "SafeAdd_at cv g r a b = SafeAdd_at cv g r b a" for g r a b
    by (simp add: SafeAdd_at_def assms split: option.splits)
  show ?thesis
  proof (cases "load_ct h z")
    case None
    then show ?thesis by (simp add: Add_def split: option.splits)
  next
    case z: (Some zc)
    show ?thesis
    proof (cases "load_ct h x")
      case None
      then show ?thesis using z by (simp add: Add_def split: option.splits)
    next
      case x: (Some xc)
      show ?thesis
      proof (cases "load_ct h y")
        case None
        then show ?thesis using z x by (simp add: Add_def)
      next
        case y: (Some yc)
        have e1: "SafeAdd_at cv h (C1 zc) (C1 yc) (C1 xc) = SafeAdd_at cv h (C1 zc) (C1 xc) (C1 yc)"
          by (rule c)
        have e2: "SafeAdd_at cv g (C2 zc) (C2 yc) (C2 xc) = SafeAdd_at cv g (C2 zc) (C2 xc) (C2 yc)" for g
          by (rule c)
        show ?thesis using z x y by (simp add: Add_def e1 e2 cong: sum.case_cong)
      qed
    qed
  qed
qed

lemma frame_load_point:
  assumes "r \<noteq> a" "r \<noteq> b"
  shows "load_point (h\<lparr>points := (points h)[a := v1, b := v2]\<rparr>) r = load_point h r"
  using assms by (simp add: load_point_def)

lemma frame_ct_points:
  assumes "point_refs h u \<inter> {a, b} = {}"
  shows "ct_points (h\<lparr>points := (points h)[a := v1, b := v2]\<rparr>) u = ct_points h u"
proof (cases "load_ct h u")
  case None
  then show ?thesis by (simp add: ct_points_def)
next
  case (Some c)
  with assms have "C1 c \<noteq> a" "C1 c \<noteq> b" "C2 c \<noteq> a" "C2 c \<noteq> b"
    by (auto simp: point_refs_def)
  then show ?thesis
    using Some by (simp add: ct_points_def frame_load_point split: option.splits)
qed

lemma receiver_ct_points:
  assumes "load_ct h z = Some zc" "C1 zc < length (points h)" "C2 zc < length (points h)"
    and "C1 zc \<noteq> C2 zc"
  shows "ct_points (h\<lparr>points := (points h)[C1 zc := v1, C2 zc := v2]\<rparr>) z = Some (v1, v2)"
  using assms by (simp add: ct_points_def load_point_def)

lemma separate_distinct:
  assumes "separate h z u" "load_ct h z = Some zc" "load_ct h u = Some uc"
  shows "C1 zc \<noteq> C1 uc" "C1 zc \<noteq> C2 uc" "C2 zc \<noteq> C1 uc" "C2 zc \<noteq> C2 uc"
  using assms by (auto simp: separate_def point_refs_def)

lemma Add_ct:
  assumes "load_ct h z = Some zc" "ct_points h z = Some (z1, z2)"
    and "load_ct h x = Some xc" "ct_points h x = Some (x1, x2)"
    and "load_ct h y = Some yc" "ct_points h y = Some (y1, y2)"
    and "C1 zc \<noteq> C2 zc" "C1 zc \<noteq> C2 xc" "C1 zc \<noteq> C2 yc"
  shows "Add cv h z x y = Inr (z, (h\<lparr>points := (points h)[C1 zc := SafeAdd cv x1 y1, C2 zc := SafeAdd cv x2 y2]\<rparr>))"
    and "ct_points (h\<lparr>points := (points h)[C1 zc := SafeAdd cv x1 y1, C2 zc := SafeAdd cv x2 y2]\<rparr>) z = Some (SafeAdd cv x1 y1, SafeAdd cv x2 y2)"
    and "load_ct (h\<lparr>points := (points h)[C1 zc := SafeAdd cv x1 y1, C2 zc := SafeAdd cv x2 y2]\<rparr>) u = load_ct h u"
    and "separate h z u \<Longrightarrow> ct_points (h\<lparr>points := (points h)[C1 zc := SafeAdd cv x1 y1, C2 zc := SafeAdd cv x2 y2]\<rparr>) u = ct_points h u"
proof -
  from assms(1,2) have z: "load_point h (C1 zc) = Some z1" "load_point h (C2 zc) = Some z2"
    by (auto elim: ct_pointsD)
  from assms(3,4) have x: "load_point h (C1 xc) = Some x1" "load_point h (C2 xc) = Some x2"
    by (auto elim: ct_pointsD)
  from assms(5,6) have y: "load_point h (C1 yc) = Some y1" "load_point h (C2 yc) = Some y2"
    by (auto elim: ct_pointsD)
  show "Add cv h z x y = Inr (z, (h\<lparr>points := (points h)[C1 zc := SafeAdd cv x1 y1, C2 zc := SafeAdd cv x2 y2]\<rparr>))"
    using assms(1,3,5) z x y assms(8,9) by (rule Add_closed_form)
  show "ct_points (h\<lparr>points := (points h)[C1 zc := SafeAdd cv x1 y1, C2 zc := SafeAdd cv x2 y2]\<rparr>) z = Some (SafeAdd cv x1 y1, SafeAdd cv x2 y2)"
    using assms(1) z assms(7)
    by (intro receiver_ct_points) (auto dest: load_pointD)
  show "load_ct (h\<lparr>points := (points h)[C1 zc := SafeAdd cv x1 y1, C2 zc := SafeAdd cv x2 y2]\<rparr>) u = load_ct h u"
    by simp
  show "ct_points (h\<lparr>points := (points h)[C1 zc := SafeAdd cv x1 y1, C2 zc := SafeAdd cv x2 y2]\<rparr>) u = ct_points h u" if "separate h z u"
  proof -
    from that assms(1) have "point_refs h u \<inter> {C1 zc, C2 zc} = {}"
      by (auto simp: separate_def point_refs_def)
    then show ?thesis by (rule frame_ct_points)
  qed
qed

lemma Add_assoc:
  assumes z: "load_ct h z = Some zc" "ct_points h z = Some (z1, z2)" "C1 zc \<noteq> C2 zc"
    and x: "ct_points h x = Some (x1, x2)" "separate h z x"
    and y: "ct_points h y = Some (y1, y2)" "separate h z y"
    and w: "ct_points h w = Some (w1, w2)" "separate h z w"
    and a1: "SafeAdd cv (SafeAdd cv x1 y1) w1 = SafeAdd cv x1 (SafeAdd cv y1 w1)"
    and a2: "SafeAdd cv (SafeAdd cv x2 y2) w2 = SafeAdd cv x2 (SafeAdd cv y2 w2)"
  shows "\<exists>h1 h2 g1 g2. Add cv h z x y = Inr (z, h1) \<and> Add cv h1 z z w = Inr (z, h2) \<and>
           Add cv h z y w = Inr (z, g1) \<and> Add cv g1 z x z = Inr (z, g2) \<and>
           ct_points h2 z = Some (SafeAdd cv (SafeAdd cv x1 y1) w1, SafeAdd cv (SafeAdd cv x2 y2) w2) \<and>
           ct_points g2 z = ct_points h2 z"
proof -
  from x(1) obtain xc where xc: "load_ct h x = Some xc" by (rule ct_pointsD)
  from y(1) obtain yc where yc: "load_ct h y = Some yc" by (rule ct_pointsD)
  from w(1) obtain wc where wc: "load_ct h w = Some wc" by (rule ct_pointsD)
  note dx = separate_distinct [OF x(2) z(1) xc]
  note dy = separate_distinct [OF y(2) z(1) yc]
  note dw = separate_distinct [OF w(2) z(1) wc]
  let ?h1 = "h\<lparr>points := (points h)[C1 zc := SafeAdd cv x1 y1, C2 zc := SafeAdd cv x2 y2]\<rparr>"
  note s1 = Add_ct [where cv = cv, OF z(1,2) xc x(1) yc y(1) z(3) dx(2) dy(2)]
  have h1z: "load_ct ?h1 z = Some zc" "load_ct ?h1 w = Some wc"
    using z(1) wc by (simp_all add: s1(3))
  have h1w: "ct_points ?h1 w = Some (w1, w2)"
    using s1(4) [OF w(2)] w(1) by simp
  let ?h2 = "?h1\<lparr>points := (points ?h1)[C1 zc := SafeAdd cv (SafeAdd cv x1 y1) w1,
                                           C2 zc := SafeAdd cv (SafeAdd cv x2 y2) w2]\<rparr>"
  note s2 = Add_ct [where cv = cv, OF h1z(1) s1(2) h1z(1) s1(2) h1z(2) h1w z(3) z(3) dw(2)]
  let ?g1 = "h\<lparr>points := (points h)[C1 zc := SafeAdd cv y1 w1, C2 zc := SafeAdd cv y2 w2]\<rparr>"
  note t1 = Add_ct [where cv = cv, OF z(1,2) yc y(1) wc w(1) z(3) dy(2) dw(2)]
  have g1z: "load_ct ?g1 z = Some zc" "load_ct ?g1 x = Some xc"
    using z(1) xc by (simp_all add: t1(3))
  have g1x: "ct_points ?g1 x = Some (x1, x2)"
    using t1(4) [OF x(2)] x(1) by simp
  note t2 = Add_ct [where cv = cv, OF g1z(1) t1(2) g1z(2) g1x g1z(1) t1(2) z(3) dx(2) z(3)]
  from s1(1) s2(1,2) t1(1) t2(1,2) a1 a2 show ?thesis by auto
qed

lemma te_add_id3: "te_add (0, 1) (0, fr_modulus - 1) = (0, fr_modulus - 1)"
  by (simp add: te_add_commute [of "(0, 1)"] te_add_id2)

lemma heap4_ct:
  "load_ct heap4 0 = Some \<lparr>C1 = 0, C2 = 1\<rparr>" "load_ct heap4 1 = Some \<lparr>C1 = 2, C2 = 3\<rparr>"
  "load_ct heap4 2 = Some \<lparr>C1 = 4, C2 = 5\<rparr>" "load_ct heap4 3 = Some \<lparr>C1 = 6, C2 = 7\<rparr>"
  by (simp_all add: heap4_def load_ct_def)

lemma heap4_points:
  "ct_points heap4 0 = Some ((0, 1), (0, 1))"
  "ct_points heap4 1 = Some ((0, fr_modulus - 1), (0, 1))"
  "ct_points heap4 2 = Some ((0, fr_modulus - 1), (0, 1))"
  "ct_points heap4 3 = Some ((0, 1), (0, fr_modulus - 1))"
  by (simp_all add: heap4_def ct_points_def load_ct_def load_point_def)

lemma heap4_separate: "separate heap4 0 1" "separate heap4 0 2" "separate heap4 0 3"
  by (simp_all add: separate_def point_refs_def heap4_def load_ct_def)

subsection \<open>The handler and the hashes\<close>

lemma newProcess_codes:
  "Decode env body = Inl e \<Longrightarrow>
     newProcess env storage body =
       ([ErrorWritten ErrMalformedBody (''could not decode request body: '' @ e)], storage)"
  "Decode env body = Inr p \<Longrightarrow>
   AddrFromSignature env (show_int (ChainID p) @ show_int (Nonce p)) (ReqSignature p) = Inl e \<Longrightarrow>
     newProcess env storage body =
       ([ErrorWritten ErrInvalidSignature (''could not extract address from signature: '' @ e)],
        storage)"
  "Decode env body = Inr p \<Longrightarrow>
   AddrFromSignature env (show_int (ChainID p) @ show_int (Nonce p)) (ReqSignature p) = Inr a \<Longrightarrow>
   GenerateKey env = Inl e \<Longrightarrow>
     newProcess env storage body =
       ([ErrorWritten ErrGenericInternalServerError (''could not generate elgamal key: '' @ e)],
        storage)"
  by (simp_all add: newProcess_def)

lemma toy_runs:
  "newProcess (toy_env (Inr (3, 4))) [] [] =
     ([ErrorWritten ErrMalformedBody ''could not decode request body: unexpected end of JSON input''], [])"
  "newProcess (toy_env (Inr (3, 4))) [] [1, 2, 0] =
     ([ErrorWritten ErrInvalidSignature
         ''could not extract address from signature: invalid signature length''], [])"
  "newProcess (toy_env (Inl ''no entropy'')) [] [1, 2] =
     ([ErrorWritten ErrGenericInternalServerError ''could not generate elgamal key: no entropy''], [])"
  "newProcess (toy_env (Inr (3, 4))) [] [1, 2] =
     ([StoreEncryptionKeysCalled (ProcessID 7 2 1) 3 4,
       Infow \<lparr>ResponseProcessID = [], EncryptionPubKey = (3, 1), StateRoot = []\<rparr>,
       JSONWritten \<lparr>ResponseProcessID = [], EncryptionPubKey = (3, 1), StateRoot = []\<rparr>],
      [ProcessID 7 2 1])"
  by (simp_all add: newProcess_def toy_env_def Let_def)

lemma div_bound:
  assumes "0 \<le> (v::int)" "v < 256 ^ Suc n"
  shows "v div 256 < 256 ^ n"
proof -
  define P :: int where "P = 256 ^ n"
  have "v = 256 * (v div 256) + v mod 256" by simp
  moreover have "0 \<le> v mod 256" by simp
  moreover have "v < 256 * P" using assms(2) by (simp add: P_def)
  ultimately have "v div 256 < P" by linarith
  then show ?thesis by (simp add: P_def)
qed

lemma length_le_digits: "0 \<le> v \<Longrightarrow> v < 256 ^ n \<Longrightarrow> length (le_digits v) \<le> n"
proof (induction n arbitrary: v)
  case 0
  then have "v = 0" by simp
  then show ?case by (simp add: le_digits.simps)
next
  case (Suc n)
  show ?case
  proof (cases "v \<le> 0")
    case True
    then show ?thesis by (simp add: le_digits.simps)
  next
    case False
    from Suc.prems have "v div 256 < 256 ^ n" by (rule div_bound)
    moreover from Suc.prems have "0 \<le> v div 256" by simp
    ultimately have "length (le_digits (v div 256)) \<le> n" using Suc.IH by blast
    with False show ?thesis by (subst le_digits.simps) simp
  qed
qed

lemma byte_of_int_mod: "(of_int (v mod 256) :: byte) = of_int v"
  by (rule word_uint_eqI) (simp add: uint_word_of_int)

lemma le_digits_padded:
  "0 \<le> v \<Longrightarrow> v < 256 ^ n \<Longrightarrow>
     le_digits v @ replicate (n - length (le_digits v)) 0 = map (\<lambda>i. of_int (v div 256 ^ i)) [0..<n]"
proof (induction n arbitrary: v)
  case 0
  then have "v = 0" by simp
  then show ?case by (simp add: le_digits.simps)
next
  case (Suc n)
  have shift: "map (\<lambda>i. of_int (v div 256 ^ i) :: byte) [0..<Suc n] =
               of_int v # map (\<lambda>i. of_int ((v div 256) div 256 ^ i)) [0..<n]"
    by (simp add: upt_conv_Cons map_Suc_upt [symmetric] zdiv_zmult2_eq del: upt_Suc)
  show ?case
  proof (cases "v \<le> 0")
    case True
    with Suc.prems have "v = 0" by simp
    then show ?thesis
      by (simp add: le_digits.simps map_replicate_const del: upt_Suc replicate_Suc)
  next
    case False
    from Suc.prems have b: "v div 256 < 256 ^ n" "0 \<le> v div 256"
      by (simp_all add: div_bound)
    have "le_digits v @ replicate (Suc n - length (le_digits v)) 0 =
          of_int (v mod 256) # (le_digits (v div 256) @ replicate (n - length (le_digits (v div 256))) 0)"
      using False by (subst (1 2) le_digits.simps) simp
    also have "\<dots> = of_int v # map (\<lambda>i. of_int ((v div 256) div 256 ^ i)) [0..<n]"
      using Suc.IH [OF b(2,1)] by (simp add: byte_of_int_mod)
    finally show ?thesis by (simp only: shift)
  qed
qed

lemma FillBytes_be_block:
  assumes "0 \<le> v" "v < 2 ^ 256"
  shows "FillBytes v 32 = Inr (be_block v)"
proof -
  have v: "v < 256 ^ 32" using assms by simp
  have len: "length (le_digits v) \<le> 32" using assms(1) v by (rule length_le_digits)
  have "replicate (32 - length (le_digits v)) 0 @ rev (le_digits v) =
        rev (le_digits v @ replicate (32 - length (le_digits v)) 0)"
    by simp
  also have "\<dots> = be_block v"
    unfolding be_block_def le_digits_padded [OF assms(1) v] by (simp add: rev_map)
  finally show ?thesis
    using assms(1) len by (simp add: FillBytes_def Bytes_def)
qed

lemma write_limbs_blocks:
  assumes "\<forall>l \<in> set ls. 0 \<le> l \<and> l < 2 ^ 256"
  shows "write_limbs h (map BigIntPtr ls) = Inr (Inr (h @ map be_block ls))"
  using assms
  by (induction ls arbitrary: h)
    (simp_all add: getBigIntFromVariable_def fr_bls12377_Bytes_def FillBytes_be_block)

lemma decompose_closed:
  "decompose x k n = map (\<lambda>i. x div 2 ^ (k * i) mod 2 ^ k) [0..<n]"
proof (induction n arbitrary: x)
  case 0
  show ?case by simp
next
  case (Suc n)
  have "map (\<lambda>i. x div 2 ^ (k * i) mod 2 ^ k) [0..<Suc n] =
        x mod 2 ^ k # map (\<lambda>i. x div 2 ^ (k * Suc i) mod 2 ^ k) [0..<n]"
    by (simp add: upt_conv_Cons map_Suc_upt [symmetric] del: upt_Suc)
  also have "\<dots> = x mod 2 ^ k # map (\<lambda>i. (x div 2 ^ k) div 2 ^ (k * i) mod 2 ^ k) [0..<n]"
    by (simp add: power_add zdiv_zmult2_eq)
  finally show ?case by (simp add: Suc.IH del: upt_Suc)
qed

lemma decompose_limbs_64: "decompose x 64 4 = limbs_64 x"
  by (simp add: decompose_closed limbs_64_def upt_conv_Cons)

lemma ValueOf_limbs: "ValueOf v = \<lparr>Limbs = map BigIntPtr (limbs_64 (field_reduced v))\<rparr>"
  by (simp add: ValueOf_def field_reduced_def decompose_limbs_64 Let_def)

lemma limbs_64_range: "\<forall>l \<in> set (limbs_64 x). 0 \<le> l \<and> l < 2 ^ 256"
proof -
  have "0 \<le> y mod 2 ^ 64 \<and> y mod 2 ^ 64 < 2 ^ 256" for y :: int
  proof -
    have "y mod 2 ^ 64 < 2 ^ 64" by simp
    moreover have "(2::int) ^ 64 < 2 ^ 256" by simp
    moreover have "0 \<le> y mod 2 ^ 64" by simp
    ultimately show ?thesis by linarith
  qed
  then show ?thesis by (simp add: limbs_64_def)
qed

lemma write_inputs_blocks:
  "write_inputs h (map ValueOf vs) = Inr (Inr (h @ batch_blocks vs))"
proof (induction vs arbitrary: h)
  case Nil
  show ?case by (simp add: batch_blocks_def)
next
  case (Cons v vs)
  have "write_limbs h (Limbs (ValueOf v)) =
          Inr (Inr (h @ map be_block (limbs_64 (field_reduced v))))"
    by (simp add: ValueOf_limbs write_limbs_blocks [OF limbs_64_range])
  then show ?case by (simp add: Cons.IH batch_blocks_def)
qed

lemma aggregator_inputs_values: "aggregator_inputs t = map ValueOf (batch_values t)"
  by (simp add: aggregator_inputs_def batch_values_def process_parameters_def
      MaxTotalCost_def comp_def)

lemma aggregator_InputsHash_closed:
  "aggregator_InputsHash mimc_Sum t = Inr (Inr (batch_hash_spec mimc_Sum t))"
  using write_inputs_blocks [of "[]" "batch_values t"]
  by (simp add: aggregator_InputsHash_def ComputePublicInputsHashFromBLS12377ToBW6761_def
      aggregator_inputs_values batch_hash_spec_def)

lemma aggregation_values_finalWitness:
  "aggregation_values (finalWitness publicHash t) = batch_values t"
  by (simp add: aggregation_values_def finalWitness_def batch_values_def)

lemma batch_values_test0:
  "batch_values test0 = [5, 0, 16, 0, 1280, 5, 2, 0, 3, 4, 9, 1234, 101, 102, 66051, 7]"
  by (simp add: batch_values_def process_parameters_def MaxTotalCost_def test0_def voter0_def
      SetBytes_def)

lemma batch_values_test_unreduced:
  "batch_values test_unreduced =
     [5, 0, 16, 0, 1280, 5, 2, 0, 3, 4, 9, 1234, 101, 102, 66051] @ [7 + fr_bls12377_modulus]"
  by (simp add: batch_values_def process_parameters_def MaxTotalCost_def test_unreduced_def
      test0_def voter0_def SetBytes_def)

lemma length_limbs_64: "length (limbs_64 x) = 4"
  by (simp add: limbs_64_def)

lemma batch_hash_test0: "batch_hash_spec count_blocks test0 = 64"
  by (simp add: batch_hash_spec_def batch_blocks_def batch_values_test0 count_blocks_def
      length_limbs_64 SetBytes_def)

lemma field_reduced_small:
  assumes "0 \<le> v" "v < 2 ^ 64"
  shows "field_reduced v = v"
proof -
  have "(2::int) ^ 64 < fr_bls12377_modulus" by (simp add: fr_bls12377_modulus_def)
  with assms have "v < fr_bls12377_modulus" by linarith
  with assms(1) show ?thesis by (simp add: field_reduced_def)
qed

lemma field_reduced_shifted: "field_reduced (7 + fr_bls12377_modulus) = 7"
proof -
  have "(7::int) < fr_bls12377_modulus" by (simp add: fr_bls12377_modulus_def)
  then show ?thesis by (simp add: field_reduced_def)
qed

lemma batch_blocks_test_unreduced:
  "batch_blocks (batch_values test_unreduced) = raw_blocks (batch_values test0)"
proof -
  have r: "field_reduced v = v"
    if "v \<in> set [5, 0, 16, 0, 1280, 5, 2, 0, 3, 4, 9, 1234, 101, 102, 66051, 7]" for v :: int
    using that by (intro field_reduced_small) auto
  have "map field_reduced (batch_values test_unreduced) = batch_values test0"
    unfolding batch_values_test_unreduced batch_values_test0
    by (simp add: field_reduced_shifted r)
  then have "map (\<lambda>v. map be_block (limbs_64 (field_reduced v))) (batch_values test_unreduced) =
        map (\<lambda>v. map be_block (limbs_64 v)) (batch_values test0)"
    by (metis (no_types, lifting) map_map comp_apply map_eq_conv)
  then show ?thesis by (simp add: batch_blocks_def raw_blocks_def)
qed

lemma last_be_block: "last (be_block v) = of_int v"
  by (simp add: be_block_def last_map last_rev hd_upt del: upt_Suc)

lemma raw_blocks_differ:
  "raw_blocks (batch_values test_unreduced) \<noteq> raw_blocks (batch_values test0)"
proof
  assume e: "raw_blocks (batch_values test_unreduced) = raw_blocks (batch_values test0)"
  have l: "last (raw_blocks (vs @ [v])) = be_block (v div 2 ^ 192 mod 2 ^ 64)" for vs v
    by (simp add: raw_blocks_def limbs_64_def)
  have h: "hd (map be_block (limbs_64 v)) = be_block (v mod 2 ^ 64)" for v
    by (simp add: limbs_64_def)
  have "map be_block (limbs_64 (7 + fr_bls12377_modulus)) = map be_block (limbs_64 7)"
    using e unfolding batch_values_test_unreduced batch_values_test0 raw_blocks_def
    by simp
  then have "be_block ((7 + fr_bls12377_modulus) mod 2 ^ 64) = be_block (7 mod 2 ^ 64)"
    by (simp only: h [symmetric])
  then have "last (be_block ((7 + fr_bls12377_modulus) mod 2 ^ 64)) = last (be_block (7 mod 2 ^ 64))"
    by simp
  then have "(of_int ((7 + fr_bls12377_modulus) mod 2 ^ 64) :: byte) = of_int (7 mod 2 ^ 64)"
    by (simp only: last_be_block)
  then show False by (simp add: fr_bls12377_modulus_def)
qed








lemma TestAggregatorCircuit_batch_test0:
  "TestAggregatorCircuit (\<lambda>w. True) (RecomputesBatchHash count_blocks) count_blocks test0"
proof -
  have "RecomputesBatchHash count_blocks (finalWitness (batch_hash_spec count_blocks test0) test0)"
    by (simp add: RecomputesBatchHash_def aggregation_values_finalWitness batch_hash_spec_def)
      (simp add: finalWitness_def)
  then show ?thesis
    by (simp add: TestAggregatorCircuit_def aggregator_InputsHash_closed list_all_iff)
qed

section \<open>The claims about the ciphertext\<close>

text \<open>
  C1 (round trip). Let \<open>z\<close> be a ciphertext whose two points are canonical (on the curve
  above: any two points of the curve), and \<open>w\<close> any ciphertext to receive the result
  (\<open>w = z\<close> is allowed). Then \<open>Serialize\<close> returns a byte string on which \<open>Deserialize\<close>
  succeeds (it returns the \<^verbatim>\<open>nil\<close> error), and afterwards the two points of \<open>w\<close> have the
  coordinates of the two points of \<open>z\<close>.
\<close>

theorem Deserialize_Serialize:
  assumes "ct_points h z = Some (p1, p2)" and "canonical cv p1" and "canonical cv p2"
    and "ct_points h w = Some (q1, q2)"
  shows "\<exists>bs h' r1 r2. Serialize cv h z = Inr bs \<and> Deserialize cv h w bs = Inr (None, h') \<and>
           ct_points h' w = Some (r1, r2) \<and> Point cv r1 = Point cv p1 \<and> Point cv r2 = Point cv p2"
proof -
  obtain c1x c1y where c1: "FromTEtoRTE cv (fst (Point cv p1)) (snd (Point cv p1)) = (c1x, c1y)"
    by (cases "FromTEtoRTE cv (fst (Point cv p1)) (snd (Point cv p1))")
  obtain c2x c2y where c2: "FromTEtoRTE cv (fst (Point cv p2)) (snd (Point cv p2)) = (c2x, c2y)"
    by (cases "FromTEtoRTE cv (fst (Point cv p2)) (snd (Point cv p2))")
  let ?a = "BigIntToBytes 32 c1x" and ?b = "BigIntToBytes 32 c1y"
  let ?c = "BigIntToBytes 32 c2x" and ?d = "BigIntToBytes 32 c2y"
  let ?bs = "?a @ ?b @ ?c @ ?d"
  have ser: "Serialize cv h z = Inr ?bs"
    using assms(1) c1 c2 by (rule Serialize_closed)
  have r1: "0 \<le> c1x" "c1x < 2 ^ 256" "0 \<le> c1y" "c1y < 2 ^ 256"
    using assms(2) c1 by (simp_all add: canonical_def split_beta)
  have r2: "0 \<le> c2x" "c2x < 2 ^ 256" "0 \<le> c2y" "c2y < 2 ^ 256"
    using assms(3) c2 by (simp_all add: canonical_def split_beta)
  have pw: "(256::int) ^ 32 = 2 ^ 256" by simp
  have rd: "readBigInt ?bs 0 = c1x" "readBigInt ?bs (0 + 32) = c1y"
           "readBigInt ?bs 64 = c2x" "readBigInt ?bs (64 + 32) = c2y"
    using r1 r2
    by (simp_all only: readBigInt_chunks length_BigIntToBytes le_val_BigIntToBytes pw
        add_0 numeral_plus_numeral semiring_norm) simp_all
  from assms(4) obtain wc where
    wc: "load_ct h w = Some wc" "load_point h (C1 wc) = Some q1" "load_point h (C2 wc) = Some q2"
    by (rule ct_pointsD)
  have len: "length ?bs = 128" by (simp add: length_BigIntToBytes)
  from decode_point_roundtrip [OF assms(2) c1 rd(1,2)] obtain v1 where
    e1: "decode_point cv ?bs 0 = Inr v1" "Point cv v1 = Point cv p1" by blast
  from decode_point_roundtrip [OF assms(3) c2 rd(3,4)] obtain v2 where
    e2: "decode_point cv ?bs 64 = Inr v2" "Point cv v2 = Point cv p2" by blast
  let ?h' = "\<lparr>points = points h @ [v1, v2],
             ciphertexts = (ciphertexts h)[w := \<lparr>C1 = length (points h),
                                                C2 = Suc (length (points h))\<rparr>]\<rparr>"
  have des: "Deserialize cv h w ?bs = Inr (None, ?h')"
    using len wc e1(1) e2(1) by (rule Deserialize_128)
  have pts: "ct_points ?h' w = Some (v1, v2)"
    using wc(1) by (rule ct_points_after_Deserialize)
  from ser des pts e1(2) e2(2) show ?thesis by blast
qed

theorem Deserialize_Serialize_witness:
  "ct_points heapG 0 = Some (te_base, (0, 1)) \<and> canonical bjj te_base \<and> canonical bjj (0, 1) \<and>
   (\<exists>bs h' r1 r2. Serialize bjj heapG 0 = Inr bs \<and> Deserialize bjj heapG 0 bs = Inr (None, h') \<and>
      ct_points h' 0 = Some (r1, r2) \<and> Point bjj r1 = Point bjj te_base \<and>
      Point bjj r2 = Point bjj (0, 1))"
proof -
  have a: "ct_points heapG 0 = Some (te_base, (0, 1))" by (rule ct_points_heapG)
  have b: "canonical bjj te_base" by (rule te_base_canonical)
  have c: "canonical bjj (0, 1)" by (rule te_on_curve_canonical [OF id_on_curve])
  from Deserialize_Serialize [OF a b c a] a b c show ?thesis by blast
qed

text \<open>
  C2 (wire format). For every ciphertext \<open>z\<close> (a struct with two point objects),
  \<open>Serialize\<close> returns exactly 128 bytes: four chunks of 32 bytes that encode, in this
  order, the reduced twisted-Edwards coordinates \<open>C1.x, C1.y, C2.x, C2.y\<close> as
  \<open>FromTEtoRTE\<close> gives them. Each chunk is little-endian: read least significant byte
  first it is the coordinate (its absolute value modulo \<open>2\<^sup>2\<^sup>5\<^sup>6\<close> in general, and so the
  coordinate itself whenever that is a non-negative number below \<open>2\<^sup>2\<^sup>5\<^sup>6\<close>, as every
  field element is).
\<close>

theorem Serialize_layout:
  assumes "ct_points h z = Some (p1, p2)"
    and "FromTEtoRTE cv (fst (Point cv p1)) (snd (Point cv p1)) = (c1x, c1y)"
    and "FromTEtoRTE cv (fst (Point cv p2)) (snd (Point cv p2)) = (c2x, c2y)"
  shows "\<exists>bs. Serialize cv h z = Inr bs \<and> length bs = 128 \<and>
           slice bs 0 32 = BigIntToBytes 32 c1x \<and> slice bs 32 64 = BigIntToBytes 32 c1y \<and>
           slice bs 64 96 = BigIntToBytes 32 c2x \<and> slice bs 96 128 = BigIntToBytes 32 c2y \<and>
           (\<forall>c \<in> {c1x, c1y, c2x, c2y}.
              length (BigIntToBytes 32 c) = 32 \<and> le_val (BigIntToBytes 32 c) = \<bar>c\<bar> mod 2 ^ 256 \<and>
              (0 \<le> c \<and> c < 2 ^ 256 \<longrightarrow> le_val (BigIntToBytes 32 c) = c))"
proof -
  let ?bs = "BigIntToBytes 32 c1x @ BigIntToBytes 32 c1y @ BigIntToBytes 32 c2x @ BigIntToBytes 32 c2y"
  have s: "Serialize cv h z = Inr ?bs"
    using assms by (rule Serialize_closed)
  have pw: "(256::int) ^ 32 = 2 ^ 256" by simp
  have enc: "length (BigIntToBytes 32 c) = 32 \<and> le_val (BigIntToBytes 32 c) = \<bar>c\<bar> mod 2 ^ 256 \<and>
              (0 \<le> c \<and> c < 2 ^ 256 \<longrightarrow> le_val (BigIntToBytes 32 c) = c)" for c
    by (simp only: length_BigIntToBytes le_val_BigIntToBytes pw) simp
  have "length ?bs = 128" by (simp add: length_BigIntToBytes)
  moreover have "slice ?bs 0 32 = BigIntToBytes 32 c1x" "slice ?bs 32 64 = BigIntToBytes 32 c1y"
    "slice ?bs 64 96 = BigIntToBytes 32 c2x" "slice ?bs 96 128 = BigIntToBytes 32 c2y"
    by (simp_all add: slice_chunks length_BigIntToBytes)
  ultimately show ?thesis using s enc by blast
qed

theorem Serialize_layout_witness:
  "ct_points heapG 0 = Some (te_base, (0, 1)) \<and>
   FromTEtoRTE bjj (fst (Point bjj te_base)) (snd (Point bjj te_base)) =
     (5299619240641551281634865583518297030282874472190772894086521144482721001553,
      16950150798460657717958625567821834550301663161624707787222815936182638968203) \<and>
   FromTEtoRTE bjj (fst (Point bjj (0, 1))) (snd (Point bjj (0, 1))) = (0, 1) \<and>
   (\<exists>bs. Serialize bjj heapG 0 = Inr bs \<and> length bs = 128 \<and>
      slice bs 0 32 =
        BigIntToBytes 32 5299619240641551281634865583518297030282874472190772894086521144482721001553 \<and>
      slice bs 32 64 =
        BigIntToBytes 32 16950150798460657717958625567821834550301663161624707787222815936182638968203 \<and>
      slice bs 64 96 = BigIntToBytes 32 0 \<and> slice bs 96 128 = BigIntToBytes 32 1)"
proof -
  have a: "ct_points heapG 0 = Some (te_base, (0, 1))" by (rule ct_points_heapG)
  have b: "FromTEtoRTE bjj (fst (Point bjj te_base)) (snd (Point bjj te_base)) =
     (5299619240641551281634865583518297030282874472190772894086521144482721001553,
      16950150798460657717958625567821834550301663161624707787222815936182638968203)"
    by (simp add: bjj_def te_base_def negFInv_def fr_modulus_def)
  have c: "FromTEtoRTE bjj (fst (Point bjj (0, 1))) (snd (Point bjj (0, 1))) = (0, 1)"
    by (simp add: bjj_def fr_modulus_def)
  from Serialize_layout [OF a b c] a b c show ?thesis by blast
qed

text \<open>
  C5 (length guard). On every input whose length is not 128, \<open>Deserialize\<close> returns
  the error that names the length it got and the length it expected, and the store it
  leaves is the store it was given: neither the receiver's \<open>C1\<close> and \<open>C2\<close> nor anything
  else is changed. The receiver is not even looked at, so this holds for a \<^verbatim>\<open>nil\<close>
  receiver too.
\<close>

theorem Deserialize_length_guard:
  assumes "length data \<noteq> 128"
  shows "Deserialize cv h z data =
           Inr (Some (''invalid input length: got '' @ show_int (int (length data)) @
                      '' bytes, expected 128 bytes''), h)"
  using assms by (simp add: Deserialize_def sizePointCoord_def show_int_128)

theorem Deserialize_length_guard_witness:
  "length ([1, 2, 3] :: byte list) \<noteq> 128 \<and>
   Deserialize bjj heap0 0 [1, 2, 3] =
     Inr (Some ''invalid input length: got 3 bytes, expected 128 bytes'', heap0)"
  using Deserialize_length_guard [of "[1, 2, 3]" bjj heap0 0]
  by (simp add: show_int_def show_digits.simps)

text \<open>
  C6 (invalid points), as the code has it. \<open>Deserialize\<close> returns one error, the length
  error. It checks no chunk against the field and no pair against the curve; it hands
  the decoded and converted pairs to \<^verbatim>\<open>SetPoint\<close>, whose one result it stores. So on every
  input of 128 bytes and a ciphertext with two point objects, whatever \<^verbatim>\<open>SetPoint\<close> does:
  \<^item> if \<^verbatim>\<open>SetPoint\<close> fails on the first pair, or returns for the first and fails on the
    second, its panic is the outcome of \<open>Deserialize\<close>, and no error is returned;
  \<^item> if \<^verbatim>\<open>SetPoint\<close> returns for both pairs, \<open>Deserialize\<close> returns \<^verbatim>\<open>nil\<close> and \<open>C1\<close> and
    \<open>C2\<close> are the two points \<^verbatim>\<open>SetPoint\<close> returned;
  \<^item> whenever \<open>Deserialize\<close> returns an error, its input was not 128 bytes long.
\<close>

theorem Deserialize_128_no_error:
  assumes "length data = 128" and "ct_points h z = Some (q1, q2)"
  shows "(case decode_point cv data 0 of
            Inl p \<Rightarrow> Deserialize cv h z data = Inl p
          | Inr a \<Rightarrow>
              (case decode_point cv data 64 of
                 Inl p \<Rightarrow> Deserialize cv h z data = Inl p
               | Inr b \<Rightarrow>
                   (\<exists>h'. Deserialize cv h z data = Inr (None, h') \<and>
                      ct_points h' z = Some (a, b)))) \<and>
         (\<forall>d e h'. Deserialize cv h z d = Inr (Some e, h') \<longrightarrow> length d \<noteq> 128)"
proof -
  from assms(2) obtain zc where
    zc: "load_ct h z = Some zc" "load_point h (C1 zc) = Some q1" "load_point h (C2 zc) = Some q2"
    by (rule ct_pointsD)
  have p1: "Deserialize cv h z data = Inl p" if "decode_point cv data 0 = Inl p" for p
    using assms(1) zc(1,2) that by (rule Deserialize_128_first_panic)
  have p2: "Deserialize cv h z data = Inl p"
    if "decode_point cv data 0 = Inr a" "decode_point cv data 64 = Inl p" for a p
    using assms(1) zc that by (rule Deserialize_128_second_panic)
  have ok: "\<exists>h'. Deserialize cv h z data = Inr (None, h') \<and> ct_points h' z = Some (a, b)"
    if "decode_point cv data 0 = Inr a" "decode_point cv data 64 = Inr b" for a b
    using Deserialize_128 [OF assms(1) zc that] ct_points_after_Deserialize [OF zc(1)]
    by auto
  have first: "case decode_point cv data 0 of
            Inl p \<Rightarrow> Deserialize cv h z data = Inl p
          | Inr a \<Rightarrow>
              (case decode_point cv data 64 of
                 Inl p \<Rightarrow> Deserialize cv h z data = Inl p
               | Inr b \<Rightarrow>
                   (\<exists>h'. Deserialize cv h z data = Inr (None, h') \<and>
                      ct_points h' z = Some (a, b)))"
    using p1 p2 ok by (simp split: sum.splits)
  have second: "\<forall>d e h'. Deserialize cv h z d = Inr (Some e, h') \<longrightarrow> length d \<noteq> 128"
    using Deserialize_error_only_length by blast
  from first second show ?thesis ..
qed

theorem Deserialize_128_no_error_witness:
  "length wire_identity = 128 \<and> ct_points heapG 0 = Some (te_base, (0, 1)) \<and>
   decode_point bjj wire_identity 0 = Inr (0, 1) \<and> decode_point bjj wire_identity 64 = Inr (0, 1) \<and>
   (\<exists>h'. Deserialize bjj heapG 0 wire_identity = Inr (None, h') \<and>
      ct_points h' 0 = Some ((0, 1), (0, 1)))"
  using Deserialize_128_no_error [of wire_identity heapG 0 te_base "(0, 1)" bjj]
  by (simp add: wire_identity_chunks ct_points_heapG decode_wire_identity)

text \<open>
  The claim as stated fails: \<open>Deserialize\<close> cannot return an error for invalid points.
  On 128 zero bytes every chunk decodes to 0 and the pair \<open>(0, 0)\<close> is on no twisted
  Edwards curve; on 128 bytes \<open>0xff\<close> every chunk decodes to \<open>2\<^sup>2\<^sup>5\<^sup>6 - 1\<close>, which is not below
  the field prime. Whatever the operations of the curve are, \<open>Deserialize\<close> returns no
  error on these inputs; and with a \<^verbatim>\<open>SetPoint\<close> that rejects both, as the spec has it, the
  outcome of \<open>Deserialize\<close> is the panic of \<^verbatim>\<open>SetPoint\<close>.
\<close>

theorem Deserialize_returns_no_error_for_invalid_points:
  "length (replicate 128 (0::byte)) = 128 \<and>
   readBigInt (replicate 128 0) 0 = 0 \<and> readBigInt (replicate 128 0) 32 = 0 \<and>
   FromRTEtoTE bjj 0 0 = (0, 0) \<and> \<not> te_on_curve (0, 0) \<and>
   Deserialize bjj heap0 0 (replicate 128 0) = Inl CoordinatesNotOnCurve \<and>
   (\<forall>cv e h'. Deserialize cv heap0 0 (replicate 128 0) \<noteq> Inr (Some e, h')) \<and>
   length (replicate 128 (255::byte)) = 128 \<and>
   readBigInt (replicate 128 255) 0 = 2 ^ 256 - 1 \<and> \<not> (2 ^ 256 - 1 < fr_modulus) \<and>
   Deserialize bjj heap0 0 (replicate 128 255) = Inl CoordinatesNotOnCurve \<and>
   (\<forall>cv e h'. Deserialize cv heap0 0 (replicate 128 255) \<noteq> Inr (Some e, h'))"
proof -
  have l0: "load_ct heap0 0 = Some \<lparr>C1 = 0, C2 = 1\<rparr>"
    "load_point heap0 (C1 \<lparr>C1 = 0, C2 = 1\<rparr>) = Some (0, 1)"
    by (simp_all add: heap0_eq load_ct_def load_point_def)
  have d0: "Deserialize bjj heap0 0 (replicate 128 0) = Inl CoordinatesNotOnCurve"
    by (rule Deserialize_128_first_panic [OF _ l0 decode_zeros]) simp
  have d1: "Deserialize bjj heap0 0 (replicate 128 255) = Inl CoordinatesNotOnCurve"
    by (rule Deserialize_128_first_panic [OF _ l0 decode_ff]) simp
  have r0: "readBigInt (replicate 128 0) 0 = 0" "readBigInt (replicate 128 0) 32 = 0"
    by (simp_all add: readBigInt_replicate le_val_replicate_zero)
  have r1: "readBigInt (replicate 128 255) 0 = 2 ^ 256 - 1"
    by (simp add: readBigInt_replicate le_val_replicate_255)
  have f: "FromRTEtoTE bjj 0 0 = (0, 0)" by (simp add: bjj_def)
  have p: "\<not> (2 ^ 256 - 1 < fr_modulus)" by (simp add: fr_modulus_def)
  have n: "Deserialize cv heap0 0 (replicate 128 b) \<noteq> Inr (Some e, h')" for cv b e h'
    using Deserialize_error_only_length [of cv heap0 0 "replicate 128 b" e h'] by auto
  from d0 d1 r0 r1 origin_off_curve f p n show ?thesis by simp
qed

text \<open>
  C7 (encryption with a given scalar). With \<open>EncryptWithK\<close> as the spec describes it:
  when the caller provides \<open>k\<close>, \<open>Encrypt\<close> on a receiver and a public key that exist
  returns the receiver and no error, and the receiver's points are \<open>C1 = g^k\<close> and
  \<open>C2 = message\<cdot>g + k\<cdot>publicKey\<close>. Whatever \<open>k\<close> is, \<open>Encrypt\<close> returns an error only when
  \<open>k\<close> is \<^verbatim>\<open>nil\<close> and the randomness generation failed; it then returns no ciphertext and
  leaves the store as it was.
\<close>

theorem Encrypt_given_k:
  assumes "load_point h publicKey = Some pk" and "load_ct h z = Some zc"
  shows "(\<exists>h'. Encrypt cv RandK h z message publicKey (Some k) = Inr ((Some z, None), h') \<and>
            ct_points h' z =
              Some (ScalarBaseMult cv k,
                    SafeAdd cv (ScalarBaseMult cv message) (ScalarMult cv pk k))) \<and>
         (\<forall>k' r e h'. Encrypt cv RandK h z message publicKey k' = Inr ((r, Some e), h') \<longrightarrow>
            k' = None \<and> (\<exists>err. RandK = Inl err) \<and> r = None \<and> h' = h)"
proof -
  let ?c1 = "ScalarBaseMult cv k"
  let ?c2 = "SafeAdd cv (ScalarBaseMult cv message) (ScalarMult cv pk k)"
  let ?h' = "\<lparr>points = points h @ [?c1, ?c2],
             ciphertexts = (ciphertexts h)[z := \<lparr>C1 = length (points h),
                                                C2 = Suc (length (points h))\<rparr>]\<rparr>"
  have "Encrypt cv RandK h z message publicKey (Some k) = Inr ((Some z, None), ?h')"
    using assms by (simp add: Encrypt_def Encrypt_with_closed)
  moreover have "ct_points ?h' z = Some (?c1, ?c2)"
    using assms(2) by (rule ct_points_after_Deserialize)
  moreover have "k' = None \<and> (\<exists>err. RandK = Inl err) \<and> r = None \<and> h' = h"
    if "Encrypt cv RandK h z message publicKey k' = Inr ((r, Some e), h')" for k' r e h'
    using that by (auto simp: Encrypt_def Encrypt_with_error split: option.splits sum.splits)
  ultimately show ?thesis by blast
qed

theorem Encrypt_given_k_witness:
  "load_point heap0 0 = Some (0, 1) \<and> load_ct heap0 0 = Some \<lparr>C1 = 0, C2 = 1\<rparr> \<and>
   (\<exists>h'. Encrypt bjj (Inl ''no entropy'') heap0 0 3 0 (Some 5) = Inr ((Some 0, None), h') \<and>
      ct_points h' 0 =
        Some (ScalarBaseMult bjj 5, SafeAdd bjj (ScalarBaseMult bjj 3) (ScalarMult bjj (0, 1) 5)))"
proof -
  have a: "load_point heap0 0 = Some (0, 1)" by (simp add: heap0_eq load_point_def)
  have b: "load_ct heap0 0 = Some \<lparr>C1 = 0, C2 = 1\<rparr>" by (simp add: heap0_eq load_ct_def)
  from Encrypt_given_k [OF a b] a b show ?thesis by blast
qed

text \<open>
  C8 (homomorphic addition), as the code has it. \<open>Add\<close> is not pure: it overwrites the
  two point objects of its receiver \<open>z\<close> in place, first \<open>z.C1 := x.C1 + y.C1\<close> and then
  \<open>z.C2 := x.C2 + y.C2\<close>, where \<open>x.C2\<close> and \<open>y.C2\<close> are read after the first write. For a
  receiver, \<open>x\<close> and \<open>y\<close> that exist (structs with two point objects each):
  \<^item> \<open>Add\<close> never fails (total) and returns \<open>z\<close>; the store it leaves is the one it was
    given with these two writes, so every ciphertext that shares no point object with
    \<open>z\<close> has the points it had;
  \<^item> if the first point object of \<open>z\<close> is not the second point object of \<open>z\<close>, of \<open>x\<close>
    or of \<open>y\<close> (so when \<open>x\<close> and \<open>y\<close> share no point object with \<open>z\<close> and the two points
    of \<open>z\<close> are distinct objects, and also when \<open>x\<close> or \<open>y\<close> is such a \<open>z\<close> itself, the
    running-tally call), then the points of \<open>z\<close> after the call are \<open>x.C1 + y.C1\<close> and
    \<open>x.C2 + y.C2\<close> of the values before the call;
  \<^item> if the curve's addition is commutative, \<open>Add(y, x)\<close> and \<open>Add(x, y)\<close> are the same
    result and store;
  \<^item> for \<open>x\<close>, \<open>y\<close>, \<open>w\<close> that share no point object with \<open>z\<close>, the two points of \<open>z\<close>
    being distinct objects, and a curve addition that is associative at their points,
    summing as \<open>(x + y) + w\<close> and as \<open>x + (y + w)\<close> through \<open>z\<close> leaves the same two points
    in \<open>z\<close>.
\<close>

theorem Add_coordinatewise:
  assumes "load_ct h z = Some zc" and "ct_points h z = Some (z1, z2)"
    and "load_ct h x = Some xc" and "ct_points h x = Some (x1, x2)"
    and "load_ct h y = Some yc" and "ct_points h y = Some (y1, y2)"
    and "ct_points h w = Some (w1, w2)"
  shows "(\<exists>h'. Add cv h z x y = Inr (z, h') \<and>
            h' = h\<lparr>points := (points h)[C1 zc := SafeAdd cv x1 y1,
                    C2 zc := SafeAdd cv (if C2 xc = C1 zc then SafeAdd cv x1 y1 else x2)
                                        (if C2 yc = C1 zc then SafeAdd cv x1 y1 else y2)]\<rparr> \<and>
            (\<forall>u. separate h z u \<longrightarrow> ct_points h' u = ct_points h u) \<and>
            (C1 zc \<noteq> C2 zc \<and> C1 zc \<noteq> C2 xc \<and> C1 zc \<noteq> C2 yc \<longrightarrow>
               ct_points h' z = Some (SafeAdd cv x1 y1, SafeAdd cv x2 y2))) \<and>
         ((\<forall>a b. SafeAdd cv a b = SafeAdd cv b a) \<longrightarrow> Add cv h z y x = Add cv h z x y) \<and>
         (C1 zc \<noteq> C2 zc \<and> separate h z x \<and> separate h z y \<and> separate h z w \<and>
          SafeAdd cv (SafeAdd cv x1 y1) w1 = SafeAdd cv x1 (SafeAdd cv y1 w1) \<and>
          SafeAdd cv (SafeAdd cv x2 y2) w2 = SafeAdd cv x2 (SafeAdd cv y2 w2) \<longrightarrow>
            (\<exists>h1 h2 g1 g2. Add cv h z x y = Inr (z, h1) \<and> Add cv h1 z z w = Inr (z, h2) \<and>
               Add cv h z y w = Inr (z, g1) \<and> Add cv g1 z x z = Inr (z, g2) \<and>
               ct_points h2 z = Some (SafeAdd cv (SafeAdd cv x1 y1) w1,
                                      SafeAdd cv (SafeAdd cv x2 y2) w2) \<and>
               ct_points g2 z = ct_points h2 z))"
proof (intro conjI impI)
  from assms(1,2) have z: "load_point h (C1 zc) = Some z1" "load_point h (C2 zc) = Some z2"
    by (auto elim: ct_pointsD)
  from assms(3,4) have x: "load_point h (C1 xc) = Some x1" "load_point h (C2 xc) = Some x2"
    by (auto elim: ct_pointsD)
  from assms(5,6) have y: "load_point h (C1 yc) = Some y1" "load_point h (C2 yc) = Some y2"
    by (auto elim: ct_pointsD)
  let ?s1 = "SafeAdd cv x1 y1"
  let ?s2 = "SafeAdd cv (if C2 xc = C1 zc then ?s1 else x2) (if C2 yc = C1 zc then ?s1 else y2)"
  let ?h' = "h\<lparr>points := (points h)[C1 zc := ?s1, C2 zc := ?s2]\<rparr>"
  have a: "Add cv h z x y = Inr (z, ?h')"
    using assms(1,3,5) z x y by (rule Add_exact)
  have f: "ct_points ?h' u = ct_points h u" if "separate h z u" for u
  proof -
    from that assms(1) have "point_refs h u \<inter> {C1 zc, C2 zc} = {}"
      by (auto simp: separate_def point_refs_def)
    then show ?thesis by (rule frame_ct_points)
  qed
  have s: "ct_points ?h' z = Some (SafeAdd cv x1 y1, SafeAdd cv x2 y2)"
    if "C1 zc \<noteq> C2 zc \<and> C1 zc \<noteq> C2 xc \<and> C1 zc \<noteq> C2 yc"
  proof -
    from that have e: "?s2 = SafeAdd cv x2 y2" by auto
    have "ct_points ?h' z = Some (?s1, ?s2)"
      using assms(1) z that by (intro receiver_ct_points) (auto dest: load_pointD)
    then show ?thesis by (simp only: e)
  qed
  from a f s show "\<exists>h'. Add cv h z x y = Inr (z, h') \<and>
            h' = h\<lparr>points := (points h)[C1 zc := SafeAdd cv x1 y1,
                    C2 zc := SafeAdd cv (if C2 xc = C1 zc then SafeAdd cv x1 y1 else x2)
                                        (if C2 yc = C1 zc then SafeAdd cv x1 y1 else y2)]\<rparr> \<and>
            (\<forall>u. separate h z u \<longrightarrow> ct_points h' u = ct_points h u) \<and>
            (C1 zc \<noteq> C2 zc \<and> C1 zc \<noteq> C2 xc \<and> C1 zc \<noteq> C2 yc \<longrightarrow>
               ct_points h' z = Some (SafeAdd cv x1 y1, SafeAdd cv x2 y2))"
    by blast
next
  assume "\<forall>a b. SafeAdd cv a b = SafeAdd cv b a"
  then show "Add cv h z y x = Add cv h z x y" by (intro Add_commute) simp
next
  assume a: "C1 zc \<noteq> C2 zc \<and> separate h z x \<and> separate h z y \<and> separate h z w \<and>
          SafeAdd cv (SafeAdd cv x1 y1) w1 = SafeAdd cv x1 (SafeAdd cv y1 w1) \<and>
          SafeAdd cv (SafeAdd cv x2 y2) w2 = SafeAdd cv x2 (SafeAdd cv y2 w2)"
  then have d: "C1 zc \<noteq> C2 zc"
    and s: "separate h z x" "separate h z y" "separate h z w"
    and e: "SafeAdd cv (SafeAdd cv x1 y1) w1 = SafeAdd cv x1 (SafeAdd cv y1 w1)"
      "SafeAdd cv (SafeAdd cv x2 y2) w2 = SafeAdd cv x2 (SafeAdd cv y2 w2)"
    by simp_all
  show "\<exists>h1 h2 g1 g2. Add cv h z x y = Inr (z, h1) \<and> Add cv h1 z z w = Inr (z, h2) \<and>
               Add cv h z y w = Inr (z, g1) \<and> Add cv g1 z x z = Inr (z, g2) \<and>
               ct_points h2 z = Some (SafeAdd cv (SafeAdd cv x1 y1) w1,
                                      SafeAdd cv (SafeAdd cv x2 y2) w2) \<and>
               ct_points g2 z = ct_points h2 z"
    using assms(1,2) d assms(4) s(1) assms(6) s(2) assms(7) s(3) e by (rule Add_assoc)
qed

theorem Add_coordinatewise_witness:
  "load_ct heap4 0 = Some \<lparr>C1 = 0, C2 = 1\<rparr> \<and> ct_points heap4 0 = Some ((0, 1), (0, 1)) \<and>
   load_ct heap4 1 = Some \<lparr>C1 = 2, C2 = 3\<rparr> \<and>
   ct_points heap4 1 = Some ((0, fr_modulus - 1), (0, 1)) \<and>
   load_ct heap4 2 = Some \<lparr>C1 = 4, C2 = 5\<rparr> \<and>
   ct_points heap4 2 = Some ((0, fr_modulus - 1), (0, 1)) \<and>
   load_ct heap4 3 = Some \<lparr>C1 = 6, C2 = 7\<rparr> \<and>
   ct_points heap4 3 = Some ((0, 1), (0, fr_modulus - 1)) \<and>
   separate heap4 0 1 \<and> separate heap4 0 2 \<and> separate heap4 0 3 \<and>
   (\<exists>h'. Add bjj heap4 0 1 3 = Inr (0, h') \<and>
      ct_points h' 0 = Some ((0, fr_modulus - 1), (0, fr_modulus - 1)) \<and>
      ct_points h' 1 = ct_points heap4 1 \<and> ct_points h' 3 = ct_points heap4 3) \<and>
   Add bjj heap4 0 3 1 = Add bjj heap4 0 1 3 \<and>
   (\<exists>h1 h2 g1 g2. Add bjj heap4 0 1 2 = Inr (0, h1) \<and> Add bjj h1 0 0 3 = Inr (0, h2) \<and>
      Add bjj heap4 0 2 3 = Inr (0, g1) \<and> Add bjj g1 0 1 0 = Inr (0, g2) \<and>
      ct_points h2 0 = Some ((0, 1), (0, fr_modulus - 1)) \<and> ct_points g2 0 = ct_points h2 0)"
proof -
  have sa: "SafeAdd bjj = te_add" by (simp add: bjj_def)
  note t = Add_coordinatewise [where cv = bjj and w = 3, OF heap4_ct(1) heap4_points(1)
      heap4_ct(2) heap4_points(2) heap4_ct(3) heap4_points(3) heap4_points(4)]
  note u = Add_coordinatewise [where cv = bjj and w = 2, OF heap4_ct(1) heap4_points(1)
      heap4_ct(2) heap4_points(2) heap4_ct(4) heap4_points(4) heap4_points(3)]
  have p: "C1 \<lparr>C1 = 0, C2 = 1\<rparr> \<noteq> C2 \<lparr>C1 = 0 :: nat, C2 = 1\<rparr> \<and>
           C1 \<lparr>C1 = 0, C2 = 1\<rparr> \<noteq> C2 \<lparr>C1 = 2, C2 = 3\<rparr> \<and>
           C1 \<lparr>C1 = 0, C2 = 1\<rparr> \<noteq> C2 \<lparr>C1 = 6 :: nat, C2 = 7\<rparr>" by simp
  have d: "C1 \<lparr>C1 = 0, C2 = 1\<rparr> \<noteq> C2 \<lparr>C1 = 0 :: nat, C2 = 1\<rparr>" by simp
  have c: "\<forall>a b. SafeAdd bjj a b = SafeAdd bjj b a"
    by (simp add: sa te_add_commute)
  have e: "SafeAdd bjj (SafeAdd bjj (0, fr_modulus - 1) (0, fr_modulus - 1)) (0, 1) =
           SafeAdd bjj (0, fr_modulus - 1) (SafeAdd bjj (0, fr_modulus - 1) (0, 1))"
    "SafeAdd bjj (SafeAdd bjj (0, 1) (0, 1)) (0, fr_modulus - 1) =
     SafeAdd bjj (0, 1) (SafeAdd bjj (0, 1) (0, fr_modulus - 1))"
    by (simp_all add: sa te_add_order2 te_add_id te_add_id2 te_add_id3)
  from u [THEN conjunct1] p obtain h' where A: "Add bjj heap4 0 1 3 = Inr (0, h')"
    "ct_points h' 0 = Some (SafeAdd bjj (0, fr_modulus - 1) (0, 1),
                            SafeAdd bjj (0, 1) (0, fr_modulus - 1))"
    "\<forall>u. separate heap4 0 u \<longrightarrow> ct_points h' u = ct_points heap4 u"
    by blast
  from A(3) heap4_separate(1,3)
  have "ct_points h' 1 = ct_points heap4 1" "ct_points h' 3 = ct_points heap4 3" by blast+
  with A(1,2) have A': "\<exists>h'. Add bjj heap4 0 1 3 = Inr (0, h') \<and>
      ct_points h' 0 = Some ((0, fr_modulus - 1), (0, fr_modulus - 1)) \<and>
      ct_points h' 1 = ct_points heap4 1 \<and> ct_points h' 3 = ct_points heap4 3"
    by (auto simp: sa te_add_id2 te_add_id3)
  from u [THEN conjunct2, THEN conjunct1] c
  have B: "Add bjj heap4 0 3 1 = Add bjj heap4 0 1 3" by blast
  from t [THEN conjunct2, THEN conjunct2] d heap4_separate e obtain h1 h2 g1 g2 where
    C: "Add bjj heap4 0 1 2 = Inr (0, h1)" "Add bjj h1 0 0 3 = Inr (0, h2)"
      "Add bjj heap4 0 2 3 = Inr (0, g1)" "Add bjj g1 0 1 0 = Inr (0, g2)"
      "ct_points h2 0 = Some (SafeAdd bjj (SafeAdd bjj (0, fr_modulus - 1) (0, fr_modulus - 1)) (0, 1),
                              SafeAdd bjj (SafeAdd bjj (0, 1) (0, 1)) (0, fr_modulus - 1))"
      "ct_points g2 0 = ct_points h2 0"
    by blast
  from C(5) have "ct_points h2 0 = Some ((0, 1), (0, fr_modulus - 1))"
    by (simp add: sa te_add_order2 te_add_id te_add_id3)
  with C(1-4,6) have C': "\<exists>h1 h2 g1 g2. Add bjj heap4 0 1 2 = Inr (0, h1) \<and>
      Add bjj h1 0 0 3 = Inr (0, h2) \<and> Add bjj heap4 0 2 3 = Inr (0, g1) \<and>
      Add bjj g1 0 1 0 = Inr (0, g2) \<and>
      ct_points h2 0 = Some ((0, 1), (0, fr_modulus - 1)) \<and> ct_points g2 0 = ct_points h2 0"
    by blast
  from heap4_ct heap4_points heap4_separate A' B C' show ?thesis by blast
qed

text \<open>
  The claim as stated fails in two places. Where it says that no input is modified: in
  the call \<^verbatim>\<open>z.Add(z, y)\<close> the input \<open>x\<close> is the receiver, and its first point \<open>(0, -1)\<close> is
  replaced by \<open>(0, -1) + (0, -1) = (0, 1)\<close>. Where it says that the result is
  \<open>x.C2 + y.C2\<close> for all ciphertexts: when the second point of \<open>x\<close> is the object that is
  the first point of \<open>z\<close>, the first write changes it before it is read, and \<open>z.C2\<close> ends
  as \<open>(0, 1)\<close> where \<open>x.C2 + y.C2\<close> was \<open>(0, -1) + (0, 1) = (0, -1)\<close>.
\<close>

theorem Add_changes_input_that_is_receiver:
  "ct_points heap2 0 = Some ((0, fr_modulus - 1), (0, 1)) \<and>
   Add bjj heap2 0 0 1 =
     Inr (0, heap2\<lparr>points := [(0, 1), (0, 1), (0, fr_modulus - 1), (0, 1)]\<rparr>) \<and>
   ct_points (heap2\<lparr>points := [(0, 1), (0, 1), (0, fr_modulus - 1), (0, 1)]\<rparr>) 0 =
     Some ((0, 1), (0, 1)) \<and>
   (0, fr_modulus - 1) \<noteq> ((0, 1) :: int \<times> int) \<and>
   ct_points heap_crossed 1 = Some ((0, fr_modulus - 1), (0, fr_modulus - 1)) \<and>
   ct_points heap_crossed 2 = Some ((0, fr_modulus - 1), (0, 1)) \<and>
   SafeAdd bjj (0, fr_modulus - 1) (0, 1) = (0, fr_modulus - 1) \<and>
   Add bjj heap_crossed 0 1 2 =
     Inr (0, heap_crossed\<lparr>points := [(0, 1), (0, 1), (0, fr_modulus - 1), (0, 1)]\<rparr>) \<and>
   ct_points (heap_crossed\<lparr>points := [(0, 1), (0, 1), (0, fr_modulus - 1), (0, 1)]\<rparr>) 0 =
     Some ((0, 1), (0, 1))"
proof -
  have f: "load_ct heap2 0 = Some \<lparr>C1 = 0, C2 = 1\<rparr>"
    "load_ct heap2 0 = Some \<lparr>C1 = 0, C2 = 1\<rparr>"
    "load_ct heap2 1 = Some \<lparr>C1 = 2, C2 = 3\<rparr>"
    "load_point heap2 (C1 \<lparr>C1 = 0, C2 = 1\<rparr>) = Some (0, fr_modulus - 1)"
    "load_point heap2 (C2 \<lparr>C1 = 0, C2 = 1\<rparr>) = Some (0, 1)"
    "load_point heap2 (C1 \<lparr>C1 = 0, C2 = 1\<rparr>) = Some (0, fr_modulus - 1)"
    "load_point heap2 (C2 \<lparr>C1 = 0, C2 = 1\<rparr>) = Some (0, 1)"
    "load_point heap2 (C1 \<lparr>C1 = 2, C2 = 3\<rparr>) = Some (0, fr_modulus - 1)"
    "load_point heap2 (C2 \<lparr>C1 = 2, C2 = 3\<rparr>) = Some (0, 1)"
    "C1 \<lparr>C1 = 0, C2 = 1\<rparr> \<noteq> C2 \<lparr>C1 = 0 :: ref, C2 = 1\<rparr>"
    "C1 \<lparr>C1 = 0, C2 = 1\<rparr> \<noteq> C2 \<lparr>C1 = 2 :: ref, C2 = 3\<rparr>"
    by (simp_all add: heap2_def load_ct_def load_point_def)
  note a = Add_closed_form [where cv = bjj, OF f]
  have b: "Add bjj heap2 0 0 1 =
      Inr (0, heap2\<lparr>points := [(0, 1), (0, 1), (0, fr_modulus - 1), (0, 1)]\<rparr>)"
    unfolding a by (simp add: bjj_def te_add_order2 te_add_id) (simp add: heap2_def)
  have c: "ct_points heap2 0 = Some ((0, fr_modulus - 1), (0, 1))"
    "ct_points (heap2\<lparr>points := [(0, 1), (0, 1), (0, fr_modulus - 1), (0, 1)]\<rparr>) 0 =
       Some ((0, 1), (0, 1))"
    by (simp_all add: heap2_def ct_points_def load_ct_def load_point_def)
  have d: "(0, fr_modulus - 1) \<noteq> ((0, 1) :: int \<times> int)" by (simp add: fr_modulus_def)
  have g: "load_ct heap_crossed 0 = Some \<lparr>C1 = 0, C2 = 1\<rparr>"
    "load_ct heap_crossed 1 = Some \<lparr>C1 = 2, C2 = 0\<rparr>"
    "load_ct heap_crossed 2 = Some \<lparr>C1 = 2, C2 = 3\<rparr>"
    "load_point heap_crossed (C1 \<lparr>C1 = 0, C2 = 1\<rparr>) = Some (0, fr_modulus - 1)"
    "load_point heap_crossed (C2 \<lparr>C1 = 0, C2 = 1\<rparr>) = Some (0, 1)"
    "load_point heap_crossed (C1 \<lparr>C1 = 2, C2 = 0\<rparr>) = Some (0, fr_modulus - 1)"
    "load_point heap_crossed (C2 \<lparr>C1 = 2, C2 = 0\<rparr>) = Some (0, fr_modulus - 1)"
    "load_point heap_crossed (C1 \<lparr>C1 = 2, C2 = 3\<rparr>) = Some (0, fr_modulus - 1)"
    "load_point heap_crossed (C2 \<lparr>C1 = 2, C2 = 3\<rparr>) = Some (0, 1)"
    by (simp_all add: heap_crossed_def load_ct_def load_point_def)
  note a' = Add_exact [where cv = bjj, OF g]
  have b': "Add bjj heap_crossed 0 1 2 =
      Inr (0, heap_crossed\<lparr>points := [(0, 1), (0, 1), (0, fr_modulus - 1), (0, 1)]\<rparr>)"
    unfolding a' by (simp add: bjj_def te_add_order2 te_add_id) (simp add: heap_crossed_def)
  have c': "ct_points heap_crossed 1 = Some ((0, fr_modulus - 1), (0, fr_modulus - 1))"
    "ct_points heap_crossed 2 = Some ((0, fr_modulus - 1), (0, 1))"
    "ct_points (heap_crossed\<lparr>points := [(0, 1), (0, 1), (0, fr_modulus - 1), (0, 1)]\<rparr>) 0 =
       Some ((0, 1), (0, 1))"
    by (simp_all add: heap_crossed_def ct_points_def load_ct_def load_point_def)
  have e: "SafeAdd bjj (0, fr_modulus - 1) (0, 1) = (0, fr_modulus - 1)"
    by (simp add: bjj_def te_add_id2)
  from b c d b' c' e show ?thesis by simp
qed

text \<open>
  C10 (what \<open>Add\<close> writes), as the code has it. On a receiver, \<open>x\<close> and \<open>y\<close> that exist,
  \<open>Add\<close> returns the receiver \<open>z\<close> itself and stores its result in the two point objects
  of the receiver, in place: the store after the call is the store before it with
  \<open>x.C1 + y.C1\<close> written to the first point object of \<open>z\<close> and then \<open>x.C2 + y.C2\<close>, with
  \<open>x.C2\<close> and \<open>y.C2\<close> as they are after the first write, written to the second. No field
  of any ciphertext struct is assigned and no other point object is written; hence
  every ciphertext that shares no point object with \<open>z\<close> keeps its points. For
  arguments \<open>x\<close> and \<open>y\<close> that share no point object with \<open>z\<close>: \<open>x\<close> and \<open>y\<close> are unchanged,
  the second point object of \<open>z\<close> holds \<open>x.C2 + y.C2\<close> of the values before the call, and
  so does the first hold \<open>x.C1 + y.C1\<close> when the two points of \<open>z\<close> are distinct objects.
  (Being a struct other than \<open>z\<close> is not enough: see the counterexample.)
\<close>

theorem Add_writes_receiver_points_only:
  assumes "load_ct h z = Some zc" and "ct_points h z = Some (z1, z2)"
    and "load_ct h x = Some xc" and "ct_points h x = Some (x1, x2)"
    and "load_ct h y = Some yc" and "ct_points h y = Some (y1, y2)"
  shows "\<exists>h'. Add cv h z x y = Inr (z, h') \<and>
           h' = h\<lparr>points := (points h)[C1 zc := SafeAdd cv x1 y1,
                   C2 zc := SafeAdd cv (if C2 xc = C1 zc then SafeAdd cv x1 y1 else x2)
                                       (if C2 yc = C1 zc then SafeAdd cv x1 y1 else y2)]\<rparr> \<and>
           ciphertexts h' = ciphertexts h \<and> length (points h') = length (points h) \<and>
           (\<forall>r. r \<noteq> C1 zc \<and> r \<noteq> C2 zc \<longrightarrow> load_point h' r = load_point h r) \<and>
           (\<forall>u. separate h z u \<longrightarrow> ct_points h' u = ct_points h u) \<and>
           (separate h z x \<and> separate h z y \<longrightarrow>
              ct_points h' x = Some (x1, x2) \<and> ct_points h' y = Some (y1, y2) \<and>
              load_point h' (C2 zc) = Some (SafeAdd cv x2 y2) \<and>
              (C1 zc \<noteq> C2 zc \<longrightarrow>
                 ct_points h' z = Some (SafeAdd cv x1 y1, SafeAdd cv x2 y2)))"
proof -
  from assms(1,2) have z: "load_point h (C1 zc) = Some z1" "load_point h (C2 zc) = Some z2"
    by (auto elim: ct_pointsD)
  from assms(3,4) have x: "load_point h (C1 xc) = Some x1" "load_point h (C2 xc) = Some x2"
    by (auto elim: ct_pointsD)
  from assms(5,6) have y: "load_point h (C1 yc) = Some y1" "load_point h (C2 yc) = Some y2"
    by (auto elim: ct_pointsD)
  let ?s1 = "SafeAdd cv x1 y1"
  let ?s2 = "SafeAdd cv (if C2 xc = C1 zc then ?s1 else x2) (if C2 yc = C1 zc then ?s1 else y2)"
  let ?h' = "h\<lparr>points := (points h)[C1 zc := ?s1, C2 zc := ?s2]\<rparr>"
  have a: "Add cv h z x y = Inr (z, ?h')"
    using assms(1,3,5) z x y by (rule Add_exact)
  have l: "C1 zc < length (points h)" "C2 zc < length (points h)"
    using z by (auto dest: load_pointD)
  have f: "ct_points ?h' u = ct_points h u" if "separate h z u" for u
  proof -
    from that assms(1) have "point_refs h u \<inter> {C1 zc, C2 zc} = {}"
      by (auto simp: separate_def point_refs_def)
    then show ?thesis by (rule frame_ct_points)
  qed
  have g: "load_point ?h' r = load_point h r" if "r \<noteq> C1 zc \<and> r \<noteq> C2 zc" for r
    using that by (simp add: frame_load_point)
  have s: "ct_points ?h' x = Some (x1, x2) \<and> ct_points ?h' y = Some (y1, y2) \<and>
           load_point ?h' (C2 zc) = Some (SafeAdd cv x2 y2) \<and>
           (C1 zc \<noteq> C2 zc \<longrightarrow> ct_points ?h' z = Some (SafeAdd cv x1 y1, SafeAdd cv x2 y2))"
    if sep: "separate h z x \<and> separate h z y"
  proof -
    from sep have sx: "separate h z x" and sy: "separate h z y" by simp_all
    note dx = separate_distinct [OF sx assms(1,3)]
    note dy = separate_distinct [OF sy assms(1,5)]
    from dx(2) dy(2) have e: "?s2 = SafeAdd cv x2 y2" by auto
    have p2: "load_point ?h' (C2 zc) = Some ?s2"
      using l by (simp add: load_point_def)
    have pz: "ct_points ?h' z = Some (?s1, ?s2)" if "C1 zc \<noteq> C2 zc"
      using assms(1) l that by (intro receiver_ct_points)
    from f [OF sx] f [OF sy] assms(4,6) p2 pz show ?thesis
      by (simp only: e) simp
  qed
  from a f g s show ?thesis by (intro exI [of _ ?h']) simp
qed

theorem Add_writes_receiver_points_only_witness:
  "load_ct heap4 0 = Some \<lparr>C1 = 0, C2 = 1\<rparr> \<and> ct_points heap4 0 = Some ((0, 1), (0, 1)) \<and>
   load_ct heap4 1 = Some \<lparr>C1 = 2, C2 = 3\<rparr> \<and>
   ct_points heap4 1 = Some ((0, fr_modulus - 1), (0, 1)) \<and>
   load_ct heap4 3 = Some \<lparr>C1 = 6, C2 = 7\<rparr> \<and>
   ct_points heap4 3 = Some ((0, 1), (0, fr_modulus - 1)) \<and>
   separate heap4 0 1 \<and> separate heap4 0 3 \<and>
   (\<exists>h'. Add bjj heap4 0 1 3 = Inr (0, h') \<and>
      points h' = [(0, fr_modulus - 1), (0, fr_modulus - 1), (0, fr_modulus - 1), (0, 1),
                   (0, fr_modulus - 1), (0, 1), (0, 1), (0, fr_modulus - 1)] \<and>
      ciphertexts h' = ciphertexts heap4 \<and>
      ct_points h' 0 = Some ((0, fr_modulus - 1), (0, fr_modulus - 1)) \<and>
      ct_points h' 1 = Some ((0, fr_modulus - 1), (0, 1)) \<and>
      ct_points h' 3 = Some ((0, 1), (0, fr_modulus - 1)))"
proof -
  have sa: "SafeAdd bjj = te_add" by (simp add: bjj_def)
  have d: "C2 \<lparr>C1 = 2, C2 = 3\<rparr> \<noteq> C1 \<lparr>C1 = 0 :: nat, C2 = 1\<rparr>"
    "C2 \<lparr>C1 = 6, C2 = 7\<rparr> \<noteq> C1 \<lparr>C1 = 0 :: nat, C2 = 1\<rparr>"
    "C1 \<lparr>C1 = 0, C2 = 1\<rparr> \<noteq> C2 \<lparr>C1 = 0 :: nat, C2 = 1\<rparr>" by simp_all
  from Add_writes_receiver_points_only [where cv = bjj,
      OF heap4_ct(1) heap4_points(1) heap4_ct(2) heap4_points(2) heap4_ct(4) heap4_points(4)]
  obtain h' where A: "Add bjj heap4 0 1 3 = Inr (0, h')"
    "h' = heap4\<lparr>points := (points heap4)[C1 \<lparr>C1 = 0, C2 = 1\<rparr> := SafeAdd bjj (0, fr_modulus - 1) (0, 1),
            C2 \<lparr>C1 = 0, C2 = 1\<rparr> :=
              SafeAdd bjj (if C2 \<lparr>C1 = 2, C2 = 3\<rparr> = C1 \<lparr>C1 = 0 :: nat, C2 = 1\<rparr>
                           then SafeAdd bjj (0, fr_modulus - 1) (0, 1) else (0, 1))
                          (if C2 \<lparr>C1 = 6, C2 = 7\<rparr> = C1 \<lparr>C1 = 0 :: nat, C2 = 1\<rparr>
                           then SafeAdd bjj (0, fr_modulus - 1) (0, 1) else (0, fr_modulus - 1))]\<rparr>"
    "ciphertexts h' = ciphertexts heap4"
    "separate heap4 0 1 \<and> separate heap4 0 3 \<longrightarrow>
       ct_points h' 1 = Some ((0, fr_modulus - 1), (0, 1)) \<and>
       ct_points h' 3 = Some ((0, 1), (0, fr_modulus - 1)) \<and>
       load_point h' (C2 \<lparr>C1 = 0, C2 = 1\<rparr>) = Some (SafeAdd bjj (0, 1) (0, fr_modulus - 1)) \<and>
       (C1 \<lparr>C1 = 0, C2 = 1\<rparr> \<noteq> C2 \<lparr>C1 = 0 :: nat, C2 = 1\<rparr> \<longrightarrow>
          ct_points h' 0 = Some (SafeAdd bjj (0, fr_modulus - 1) (0, 1),
                                 SafeAdd bjj (0, 1) (0, fr_modulus - 1)))"
    by blast
  from A(2) have P: "points h' = [(0, fr_modulus - 1), (0, fr_modulus - 1), (0, fr_modulus - 1), (0, 1),
                   (0, fr_modulus - 1), (0, 1), (0, 1), (0, fr_modulus - 1)]"
    by (simp add: sa te_add_id2 te_add_id3 heap4_def)
  from A(4) heap4_separate(1,3) d(3)
  have Q: "ct_points h' 1 = Some ((0, fr_modulus - 1), (0, 1))"
    "ct_points h' 3 = Some ((0, 1), (0, fr_modulus - 1))"
    "ct_points h' 0 = Some (SafeAdd bjj (0, fr_modulus - 1) (0, 1),
                            SafeAdd bjj (0, 1) (0, fr_modulus - 1))"
    by blast+
  from Q(3) have Q3: "ct_points h' 0 = Some ((0, fr_modulus - 1), (0, fr_modulus - 1))"
    by (simp add: sa te_add_id2 te_add_id3)
  from A(1,3) P Q(1,2) Q3 heap4_ct(1,2,4) heap4_points(1,2,4) heap4_separate(1,3)
  show ?thesis by blast
qed

text \<open>
  The claim as stated fails: \<open>x\<close> can be a struct other than \<open>z\<close> and still refer to
  a point object of \<open>z\<close>. After \<^verbatim>\<open>z.Add(x, x)\<close> on two structs with one first point, the
  first point of \<open>x\<close> is \<open>(0, 1)\<close> where it was \<open>(0, -1)\<close>.
\<close>

theorem Add_changes_argument_sharing_a_point:
  "(1::ref) \<noteq> 0 \<and>
   ct_points heap_shared 1 = Some ((0, fr_modulus - 1), (0, 1)) \<and>
   Add bjj heap_shared 0 1 1 = Inr (0, heap_shared\<lparr>points := [(0, 1), (0, 1), (0, 1)]\<rparr>) \<and>
   ct_points (heap_shared\<lparr>points := [(0, 1), (0, 1), (0, 1)]\<rparr>) 1 = Some ((0, 1), (0, 1)) \<and>
   (0, fr_modulus - 1) \<noteq> ((0, 1) :: int \<times> int)"
proof -
  have f: "load_ct heap_shared 0 = Some \<lparr>C1 = 0, C2 = 1\<rparr>"
    "load_ct heap_shared 1 = Some \<lparr>C1 = 0, C2 = 2\<rparr>"
    "load_ct heap_shared 1 = Some \<lparr>C1 = 0, C2 = 2\<rparr>"
    "load_point heap_shared (C1 \<lparr>C1 = 0, C2 = 1\<rparr>) = Some (0, fr_modulus - 1)"
    "load_point heap_shared (C2 \<lparr>C1 = 0, C2 = 1\<rparr>) = Some (0, 1)"
    "load_point heap_shared (C1 \<lparr>C1 = 0, C2 = 2\<rparr>) = Some (0, fr_modulus - 1)"
    "load_point heap_shared (C2 \<lparr>C1 = 0, C2 = 2\<rparr>) = Some (0, 1)"
    "load_point heap_shared (C1 \<lparr>C1 = 0, C2 = 2\<rparr>) = Some (0, fr_modulus - 1)"
    "load_point heap_shared (C2 \<lparr>C1 = 0, C2 = 2\<rparr>) = Some (0, 1)"
    "C1 \<lparr>C1 = 0, C2 = 1\<rparr> \<noteq> C2 \<lparr>C1 = 0 :: ref, C2 = 2\<rparr>"
    "C1 \<lparr>C1 = 0, C2 = 1\<rparr> \<noteq> C2 \<lparr>C1 = 0 :: ref, C2 = 2\<rparr>"
    by (simp_all add: heap_shared_def load_ct_def load_point_def)
  note a = Add_closed_form [where cv = bjj, OF f]
  have b: "Add bjj heap_shared 0 1 1 = Inr (0, heap_shared\<lparr>points := [(0, 1), (0, 1), (0, 1)]\<rparr>)"
    unfolding a by (simp add: bjj_def te_add_order2 te_add_id) (simp add: heap_shared_def)
  have c: "ct_points heap_shared 1 = Some ((0, fr_modulus - 1), (0, 1))"
    "ct_points (heap_shared\<lparr>points := [(0, 1), (0, 1), (0, 1)]\<rparr>) 1 = Some ((0, 1), (0, 1))"
    by (simp_all add: heap_shared_def ct_points_def load_ct_def load_point_def)
  have d: "(0, fr_modulus - 1) \<noteq> ((0, 1) :: int \<times> int)" by (simp add: fr_modulus_def)
  from b c d show ?thesis by simp
qed

section \<open>The claim about process creation\<close>

text \<open>
  C9 (no partial state). Whenever decoding the body fails, or the body decodes and the
  recovery of the address from the signature fails, or key generation fails, the handler
  writes exactly one error, whose code is \<open>ErrMalformedBody\<close>, \<open>ErrInvalidSignature\<close> or
  \<open>ErrGenericInternalServerError\<close>, and does nothing else: \<open>StoreEncryptionKeys\<close> is not
  among its effects and the storage is the one it started with. (Lemma
  \<open>newProcess_codes\<close> gives the code and the message of each of the three failures.)
\<close>

theorem newProcess_failure_stores_nothing:
  assumes "(\<exists>e. Decode env body = Inl e) \<or>
           (\<exists>p e. Decode env body = Inr p \<and>
              AddrFromSignature env (show_int (ChainID p) @ show_int (Nonce p)) (ReqSignature p) = Inl e) \<or>
           (\<exists>e. GenerateKey env = Inl e)"
  shows "(\<exists>code msg. newProcess env storage body = ([ErrorWritten code msg], storage) \<and>
            code \<in> {ErrMalformedBody, ErrInvalidSignature, ErrGenericInternalServerError}) \<and>
         \<not> list_ex is_store_call (fst (newProcess env storage body)) \<and>
         snd (newProcess env storage body) = storage"
proof -
  have "\<exists>code msg. newProcess env storage body = ([ErrorWritten code msg], storage) \<and>
            code \<in> {ErrMalformedBody, ErrInvalidSignature, ErrGenericInternalServerError}"
    using assms
    by (auto simp: newProcess_def Let_def split: sum.splits prod.splits option.splits)
  then show ?thesis by auto
qed

theorem newProcess_failure_stores_nothing_witness:
  "GenerateKey (toy_env (Inl ''no entropy'')) = Inl ''no entropy'' \<and>
   newProcess (toy_env (Inl ''no entropy'')) [] [1, 2] =
     ([ErrorWritten ErrGenericInternalServerError ''could not generate elgamal key: no entropy''], []) \<and>
   \<not> list_ex is_store_call (fst (newProcess (toy_env (Inl ''no entropy'')) [] [1, 2])) \<and>
   snd (newProcess (toy_env (Inl ''no entropy'')) [] [1, 2]) = []"
proof -
  have g: "GenerateKey (toy_env (Inl ''no entropy'')) = Inl ''no entropy''"
    by (simp add: toy_env_def)
  then have "(\<exists>e. Decode (toy_env (Inl ''no entropy'')) [1, 2] = Inl e) \<or>
             (\<exists>p e. Decode (toy_env (Inl ''no entropy'')) [1, 2] = Inr p \<and>
                AddrFromSignature (toy_env (Inl ''no entropy''))
                  (show_int (ChainID p) @ show_int (Nonce p)) (ReqSignature p) = Inl e) \<or>
             (\<exists>e. GenerateKey (toy_env (Inl ''no entropy'')) = Inl e)"
    by blast
  from newProcess_failure_stores_nothing [OF this, of "[]"] g toy_runs(3)
  show ?thesis by simp
qed

section \<open>The claims about the circuits' hashes\<close>




text \<open>
  C4 (the batch hash), as the code has it. The value that \<^verbatim>\<open>TestAggregatorCircuit\<close>
  computes with \<^verbatim>\<open>ComputePublicInputsHashFromBLS12377ToBW6761\<close> and declares as \<open>InputsHash\<close>
  is \<open>batch_hash_spec\<close>: over the process parameters, the two coordinates of the
  encryption key, the process id, the census root, then the nullifiers, the commitments,
  the addresses and the ciphertext coordinates of all voters. The test reduces none of
  them, but \<^verbatim>\<open>emulated.ValueOf\<close> does: each value is reduced modulo the scalar field of
  BLS12-377 (the modulus itself excepted) and then decomposed into four limbs of 64
  bits; each limb is written to the hasher as its own block of 32 bytes, most
  significant byte first, and the digest is read as a number. The function returns this
  value without error or panic. Whatever the Aggregation Predicate is: if
  \<^verbatim>\<open>TestAggregatorCircuit\<close> succeeds on it, it accepts a witness over these values whose
  declared \<open>InputsHash\<close> is this hash.
\<close>

theorem aggregator_InputsHash_is_batch_hash:
  "aggregator_InputsHash mimc_Sum t = Inr (Inr (batch_hash_spec mimc_Sum t)) \<and>
   (TestAggregatorCircuit Define Define_aggregator mimc_Sum t \<longrightarrow>
      (\<exists>w. Define_aggregator w \<and> aggregation_values w = batch_values t \<and>
         BatchInputsHash w = batch_hash_spec mimc_Sum t))"
proof (intro conjI impI)
  show h: "aggregator_InputsHash mimc_Sum t = Inr (Inr (batch_hash_spec mimc_Sum t))"
    by (rule aggregator_InputsHash_closed)
  assume "TestAggregatorCircuit Define Define_aggregator mimc_Sum t"
  then have "Define_aggregator (finalWitness (batch_hash_spec mimc_Sum t) t)"
    by (simp add: TestAggregatorCircuit_def h)
  then show "\<exists>w. Define_aggregator w \<and> aggregation_values w = batch_values t \<and>
         BatchInputsHash w = batch_hash_spec mimc_Sum t"
    by (intro exI [of _ "finalWitness (batch_hash_spec mimc_Sum t) t"])
      (simp add: aggregation_values_finalWitness, simp add: finalWitness_def)
qed

theorem aggregator_InputsHash_is_batch_hash_witness:
  "TestAggregatorCircuit (\<lambda>w. True) (RecomputesBatchHash count_blocks) count_blocks test0 \<and>
   aggregator_InputsHash count_blocks test0 = Inr (Inr 64) \<and>
   batch_values test0 = [5, 0, 16, 0, 1280, 5, 2, 0, 3, 4, 9, 1234, 101, 102, 66051, 7] \<and>
   (\<exists>w. RecomputesBatchHash count_blocks w \<and>
      aggregation_values w = [5, 0, 16, 0, 1280, 5, 2, 0, 3, 4, 9, 1234, 101, 102, 66051, 7] \<and>
      BatchInputsHash w = 64)"
  using aggregator_InputsHash_is_batch_hash [of count_blocks test0 "\<lambda>w. True"
      "RecomputesBatchHash count_blocks"]
    TestAggregatorCircuit_batch_test0 batch_hash_test0 batch_values_test0
  by simp

text \<open>
  The claim as stated fails where it says that the ciphertext coordinates are hashed
  raw. The coordinates \<open>7\<close> and \<open>7 + r\<close>, with \<open>r\<close> the order of the scalar field of
  BLS12-377, are two elements of the field of the ciphertext's curve, and the blocks of
  their limbs differ; but the blocks that the hasher is given for \<open>7 + r\<close> are those of
  \<open>7\<close>, and so the two batches have the same \<open>InputsHash\<close>, whatever the digest.
\<close>

theorem batch_hash_reduces_coordinates:
  "concat (map plainCipherfields (voters test0)) = [7] \<and>
   concat (map plainCipherfields (voters test_unreduced)) = [7 + fr_bls12377_modulus] \<and>
   0 \<le> 7 + fr_bls12377_modulus \<and> 7 + fr_bls12377_modulus < fr_modulus \<and>
   raw_blocks (batch_values test_unreduced) \<noteq> raw_blocks (batch_values test0) \<and>
   write_inputs [] (aggregator_inputs test_unreduced) = Inr (Inr (raw_blocks (batch_values test0))) \<and>
   write_inputs [] (aggregator_inputs test0) = Inr (Inr (raw_blocks (batch_values test0))) \<and>
   (\<forall>mimc_Sum. aggregator_InputsHash mimc_Sum test_unreduced = aggregator_InputsHash mimc_Sum test0)"
proof -
  have a: "concat (map plainCipherfields (voters test0)) = [7]"
    "concat (map plainCipherfields (voters test_unreduced)) = [7 + fr_bls12377_modulus]"
    by (simp_all add: test_unreduced_def test0_def voter0_def)
  have b: "0 \<le> 7 + fr_bls12377_modulus" "7 + fr_bls12377_modulus < fr_modulus"
    by (simp_all add: fr_bls12377_modulus_def fr_modulus_def)
  have r: "field_reduced v = v"
    if "v \<in> set [5, 0, 16, 0, 1280, 5, 2, 0, 3, 4, 9, 1234, 101, 102, 66051, 7]" for v :: int
    using that by (intro field_reduced_small) auto
  have c: "batch_blocks (batch_values test0) = raw_blocks (batch_values test0)"
    unfolding batch_blocks_def raw_blocks_def batch_values_test0 by (simp add: r)
  have d: "write_inputs [] (aggregator_inputs test_unreduced) =
             Inr (Inr (raw_blocks (batch_values test0)))"
    "write_inputs [] (aggregator_inputs test0) = Inr (Inr (raw_blocks (batch_values test0)))"
    using write_inputs_blocks [of "[]" "batch_values test_unreduced"]
      write_inputs_blocks [of "[]" "batch_values test0"]
    by (simp_all add: aggregator_inputs_values batch_blocks_test_unreduced c)
  have e: "aggregator_InputsHash mimc_Sum test_unreduced = aggregator_InputsHash mimc_Sum test0"
    for mimc_Sum
    by (simp add: aggregator_InputsHash_def ComputePublicInputsHashFromBLS12377ToBW6761_def d)
  from a b raw_blocks_differ d e show ?thesis by simp
qed

end
